theory Spec2Isabelle
  imports Complex_Main "HOL-Library.AList"
begin

section \<open>Failures, statistics and awaited computations\<close>

text \<open>
  Keys are JavaScript strings, modelled as lists of 8-bit characters. Timestamps are
  whole milliseconds, TTLs whole seconds, counters count; the capacity bound of the memory
  store is any real number.
  An optional argument \<open>x?: T\<close> is a \<open>T option\<close>, \<open>None\<close> standing for \<open>undefined\<close>.
  The value \<open>null\<close> returned by a lookup is \<open>None\<close> of \<open>'v option\<close>; the type \<open>'v\<close>
  holds the cached values other than \<open>null\<close>.
\<close>

type_synonym key = string

datatype CacheErrorCode =
  CONNECTION_ERROR | SERIALIZATION_ERROR | TIMEOUT | KEY_TOO_LONG | VALUE_TOO_LARGE | ADAPTER_ERROR

datatype js_error = CacheError string CacheErrorCode | Error string | TypeError string

record CacheStats =
  hits :: int
  misses :: int
  keys :: int
  memory :: int
  uptime :: int

text \<open>
  An \<open>async\<close> function that is awaited is a transformer of the world \<open>'s\<close> it runs in
  (the stores it reaches, the clock): it ends with a failure (\<open>Inl\<close>, a rejected promise
  or a \<open>throw\<close>) or a value (\<open>Inr\<close>), and leaves a new world.
\<close>

type_synonym ('a, 's) task = "'s \<Rightarrow> (js_error + 'a) \<times> 's"

definition resolve :: "'a \<Rightarrow> ('a, 's) task" where
  "resolve a s = (Inr a, s)"

definition reject :: "js_error \<Rightarrow> ('a, 's) task" where
  "reject e s = (Inl e, s)"

definition await :: "('a, 's) task \<Rightarrow> ('a \<Rightarrow> ('b, 's) task) \<Rightarrow> ('b, 's) task" where
  "await m f s = (case m s of (Inl e, s') \<Rightarrow> (Inl e, s') | (Inr a, s') \<Rightarrow> f a s')"

definition try_catch :: "('a, 's) task \<Rightarrow> (js_error \<Rightarrow> ('a, 's) task) \<Rightarrow> ('a, 's) task" where
  "try_catch m h s = (case m s of (Inl e, s') \<Rightarrow> h e s' | (Inr a, s') \<Rightarrow> (Inr a, s'))"

text \<open>
  \<open>Promise.all([p, q])\<close> of two calls: both are started in the order written and both run
  to their end, whatever the other does; the result is rejected with the failure of the
  first one that failed. The two calls are taken one after the other.
\<close>

definition promise_all2 :: "('a, 's) task \<Rightarrow> ('b, 's) task \<Rightarrow> ('a \<times> 'b, 's) task" where
  "promise_all2 p q s =
     (case p s of (r1, s1) \<Rightarrow>
        (case q s1 of (r2, s2) \<Rightarrow>
           (case r1 of Inl e \<Rightarrow> (Inl e, s2)
            | Inr a \<Rightarrow> (case r2 of Inl e \<Rightarrow> (Inl e, s2) | Inr b \<Rightarrow> (Inr (a, b), s2)))))"

text \<open>
  A call that is not awaited and whose rejection is only logged
  (\<open>p.catch(err => console.error(..))\<close>): its effect on the world stays, its outcome is dropped.
\<close>

definition fire_and_forget :: "('a, 's) task \<Rightarrow> (unit, 's) task" where
  "fire_and_forget p s = (Inr (), snd (p s))"

section \<open>MemoryAdapter (src/src/adapters/memory-adapter.ts)\<close>

text \<open>
  The private \<open>Map<string, CacheEntry>\<close> keeps its keys in insertion order: it is an
  association list with distinct keys, oldest first. \<open>Map.set\<close> on a key already present
  replaces the entry where it stands, on a new key appends it (\<open>AList.update\<close>);
  \<open>Map.delete\<close> removes it (\<open>AList.delete\<close>); \<open>Map.get\<close> is \<open>map_of\<close>.
  \<open>Date.now()\<close> is the argument \<open>now\<close> of every operation that reads the clock.
\<close>

record 'v CacheEntry =
  entry_value :: 'v
  expiresAt :: int

record 'v MemoryAdapter =
  cache :: "(key \<times> 'v CacheEntry) list"
  max_items :: real
  maxSize :: "real option"
  hits_ctr :: int
  misses_ctr :: int
  startTime :: int

text \<open>
  The constructor: \<open>max: options.max || 1000\<close>, so an absent or zero bound is 1000 and any
  other number, negative or fractional too, is kept as it is.
\<close>

definition MemoryAdapter_new :: "real option \<Rightarrow> real option \<Rightarrow> int \<Rightarrow> 'v MemoryAdapter" where
  "MemoryAdapter_new mx msz now =
     \<lparr>cache = [],
      max_items = (case mx of None \<Rightarrow> 1000 | Some n \<Rightarrow> if n = 0 then 1000 else n),
      maxSize = msz, hits_ctr = 0, misses_ctr = 0, startTime = now\<rparr>"

text \<open>The test \<open>entry.expiresAt && entry.expiresAt < Date.now()\<close> of get, has and cleanup.\<close>

definition expired :: "int \<Rightarrow> 'v CacheEntry \<Rightarrow> bool" where
  "expired now e \<longleftrightarrow> expiresAt e \<noteq> 0 \<and> expiresAt e < now"

definition MemoryAdapter_get :: "int \<Rightarrow> key \<Rightarrow> 'v MemoryAdapter \<Rightarrow> 'v option \<times> 'v MemoryAdapter" where
  "MemoryAdapter_get now k st =
     (case map_of (cache st) k of
        None \<Rightarrow> (None, st\<lparr>misses_ctr := misses_ctr st + 1\<rparr>)
      | Some entry \<Rightarrow>
          if expired now entry
          then (None, st\<lparr>cache := AList.delete k (cache st), misses_ctr := misses_ctr st + 1\<rparr>)
          else (Some (entry_value entry), st\<lparr>hits_ctr := hits_ctr st + 1\<rparr>))"

text \<open>
  \<open>const firstKey = this.cache.keys().next().value; if (firstKey) this.cache.delete(firstKey)\<close>:
  the oldest key is removed when it is truthy, that is, present and not the empty string.
\<close>

definition evict_oldest :: "(key \<times> 'v CacheEntry) list \<Rightarrow> (key \<times> 'v CacheEntry) list" where
  "evict_oldest c =
     (case c of [] \<Rightarrow> c
      | (firstKey, _) # _ \<Rightarrow> if firstKey \<noteq> [] then AList.delete firstKey c else c)"

definition MemoryAdapter_set ::
  "int \<Rightarrow> key \<Rightarrow> 'v \<Rightarrow> int option \<Rightarrow> 'v MemoryAdapter \<Rightarrow> 'v MemoryAdapter" where
  "MemoryAdapter_set now k v ttl st =
     (let c = (if max_items st \<noteq> 0 \<and> real (length (cache st)) \<ge> max_items st
                  \<and> map_of (cache st) k = None
               then evict_oldest (cache st) else cache st);
          exp = (case ttl of None \<Rightarrow> 0 | Some t \<Rightarrow> if t \<noteq> 0 then now + t * 1000 else 0)
      in st\<lparr>cache := AList.update k \<lparr>entry_value = v, expiresAt = exp\<rparr> c\<rparr>)"

text \<open>\<open>delete(key: string | string[])\<close>.\<close>

datatype key_arg = One key | Many "key list"

definition delete_keys :: "key list \<Rightarrow> (key \<times> 'e) list \<Rightarrow> (key \<times> 'e) list" where
  "delete_keys ks c = foldl (\<lambda>acc k. AList.delete k acc) c ks"

definition MemoryAdapter_delete :: "key_arg \<Rightarrow> 'v MemoryAdapter \<Rightarrow> 'v MemoryAdapter" where
  "MemoryAdapter_delete ka st =
     (case ka of
        Many ks \<Rightarrow> st\<lparr>cache := delete_keys ks (cache st)\<rparr>
      | One k \<Rightarrow> st\<lparr>cache := AList.delete k (cache st)\<rparr>)"

text \<open>
  \<open>patternToRegex\<close> escapes every character that is special in a regular expression except
  \<open>*\<close>, turns each \<open>*\<close> into \<open>.*\<close> and anchors the result; \<open>regex.test(key)\<close> then holds
  when the whole key matches, each \<open>*\<close> standing for a run of characters that are not
  line terminators (what \<open>.\<close> matches without the \<open>s\<close> flag) and every other character
  for itself.
\<close>

definition line_terminator :: "char \<Rightarrow> bool" where
  "line_terminator c \<longleftrightarrow> c = CHR 0x0A \<or> c = CHR 0x0D"

fun glob_test :: "string \<Rightarrow> string \<Rightarrow> bool" where
  "glob_test [] s = (s = [])"
| "glob_test (p # ps) [] = (p = CHR ''*'' \<and> glob_test ps [])"
| "glob_test (p # ps) (c # cs) =
     (if p = CHR ''*''
      then glob_test ps (c # cs) \<or> (\<not> line_terminator c \<and> glob_test (p # ps) cs)
      else p = c \<and> glob_test ps cs)"

definition MemoryAdapter_clear :: "string option \<Rightarrow> 'v MemoryAdapter \<Rightarrow> 'v MemoryAdapter" where
  "MemoryAdapter_clear pattern st =
     (case pattern of
        None \<Rightarrow> st\<lparr>cache := []\<rparr>
      | Some p \<Rightarrow>
          if p = [] then st\<lparr>cache := []\<rparr>
          else st\<lparr>cache := delete_keys (filter (glob_test p) (map fst (cache st))) (cache st)\<rparr>)"

definition MemoryAdapter_has :: "int \<Rightarrow> key \<Rightarrow> 'v MemoryAdapter \<Rightarrow> bool \<times> 'v MemoryAdapter" where
  "MemoryAdapter_has now k st =
     (case map_of (cache st) k of
        None \<Rightarrow> (False, st)
      | Some entry \<Rightarrow>
          if expired now entry then (False, st\<lparr>cache := AList.delete k (cache st)\<rparr>)
          else (True, st))"

text \<open>\<open>mget\<close>: one \<open>get\<close> per requested key, in order; the result map holds the keys found.\<close>

fun mget_loop ::
  "int \<Rightarrow> key list \<Rightarrow> (key \<times> 'v) list \<Rightarrow> 'v MemoryAdapter \<Rightarrow> (key \<times> 'v) list \<times> 'v MemoryAdapter" where
  "mget_loop now [] results st = (results, st)"
| "mget_loop now (k # ks) results st =
     (case MemoryAdapter_get now k st of
        (None, st') \<Rightarrow> mget_loop now ks results st'
      | (Some v, st') \<Rightarrow> mget_loop now ks (AList.update k v results) st')"

definition MemoryAdapter_mget ::
  "int \<Rightarrow> key list \<Rightarrow> 'v MemoryAdapter \<Rightarrow> (key \<times> 'v) list \<times> 'v MemoryAdapter" where
  "MemoryAdapter_mget now ks st = mget_loop now ks [] st"

text \<open>\<open>mset\<close>: one \<open>set\<close> per entry of the given map, in its order.\<close>

definition MemoryAdapter_mset ::
  "int \<Rightarrow> (key \<times> 'v) list \<Rightarrow> int option \<Rightarrow> 'v MemoryAdapter \<Rightarrow> 'v MemoryAdapter" where
  "MemoryAdapter_mset now entries ttl st =
     foldl (\<lambda>acc (k, v). MemoryAdapter_set now k v ttl acc) st entries"

definition MemoryAdapter_keys :: "string option \<Rightarrow> 'v MemoryAdapter \<Rightarrow> key list" where
  "MemoryAdapter_keys pattern st =
     (case pattern of
        None \<Rightarrow> map fst (cache st)
      | Some p \<Rightarrow> if p = [] then map fst (cache st)
                  else filter (glob_test p) (map fst (cache st)))"

definition cleanup :: "int \<Rightarrow> 'v MemoryAdapter \<Rightarrow> 'v MemoryAdapter" where
  "cleanup now st =
     st\<lparr>cache := delete_keys (map fst (filter (\<lambda>(k, e). expired now e) (cache st))) (cache st)\<rparr>"

text \<open>
  \<open>estimateMemoryUsage\<close>: two bytes per character of the key and of the JSON text of the
  value, and 16 bytes per entry, entry after entry. The argument \<open>json\<close> is the line
  \<open>JSON.stringify(entry.value)\<close> with the \<open>.length\<close> read on its result: it gives the JSON
  text, or the failure the line ends with (\<open>JSON.stringify\<close> throws on a cyclic value, and
  \<open>.length\<close> throws a \<open>TypeError\<close> on the \<open>undefined\<close> it answers for a function or for
  \<open>undefined\<close>). A failure ends the estimate, and \<open>stats()\<close> with it, after the sweep.
\<close>

fun estimate_loop :: "('v \<Rightarrow> js_error + string) \<Rightarrow> int \<Rightarrow> (key \<times> 'v CacheEntry) list \<Rightarrow> js_error + int" where
  "estimate_loop json acc [] = Inr acc"
| "estimate_loop json acc ((k, e) # es) =
     (case json (entry_value e) of
        Inl err \<Rightarrow> Inl err
      | Inr valueStr \<Rightarrow>
          estimate_loop json (acc + int (length k) * 2 + int (length valueStr) * 2 + 16) es)"

definition estimateMemoryUsage :: "('v \<Rightarrow> js_error + string) \<Rightarrow> 'v MemoryAdapter \<Rightarrow> js_error + int" where
  "estimateMemoryUsage json st = estimate_loop json 0 (cache st)"

definition MemoryAdapter_stats ::
  "('v \<Rightarrow> js_error + string) \<Rightarrow> int \<Rightarrow> 'v MemoryAdapter
     \<Rightarrow> (js_error + CacheStats) \<times> 'v MemoryAdapter" where
  "MemoryAdapter_stats json now st =
     (let st' = cleanup now st
      in (case estimateMemoryUsage json st' of
            Inl err \<Rightarrow> Inl err
          | Inr acc \<Rightarrow>
              Inr \<lparr>hits = hits_ctr st', misses = misses_ctr st', keys = int (length (cache st')),
                   memory = acc, uptime = now - startTime st'\<rparr>,
          st'))"

section \<open>The adapter contract (src/src/core/interfaces.ts)\<close>

text \<open>
  \<open>ICacheAdapter\<close> is an interface: an adapter is the record of its nine operations, each
  an awaited computation over the world the adapter lives in.
\<close>

record ('v, 's) ICacheAdapter =
  a_get :: "key \<Rightarrow> ('v option, 's) task"
  a_set :: "key \<Rightarrow> 'v \<Rightarrow> int option \<Rightarrow> (unit, 's) task"
  a_delete :: "key_arg \<Rightarrow> (unit, 's) task"
  a_clear :: "string option \<Rightarrow> (unit, 's) task"
  a_has :: "key \<Rightarrow> (bool, 's) task"
  a_mget :: "key list \<Rightarrow> ((key \<times> 'v) list, 's) task"
  a_mset :: "(key \<times> 'v) list \<Rightarrow> int option \<Rightarrow> (unit, 's) task"
  a_keys :: "string option \<Rightarrow> (key list, 's) task"
  a_stats :: "(CacheStats, 's) task"

text \<open>
  A \<open>MemoryAdapter\<close> object inside a world: \<open>clock\<close> reads \<open>Date.now()\<close>, \<open>sel\<close> reads the
  object and \<open>upd\<close> writes it back. Only \<open>stats\<close> can throw.
\<close>

definition MemoryAdapter_adapter ::
  "('v \<Rightarrow> js_error + string) \<Rightarrow> ('s \<Rightarrow> int) \<Rightarrow> ('s \<Rightarrow> 'v MemoryAdapter) \<Rightarrow> ('v MemoryAdapter \<Rightarrow> 's \<Rightarrow> 's)
     \<Rightarrow> ('v, 's) ICacheAdapter" where
  "MemoryAdapter_adapter json clock sel upd =
     \<lparr>a_get = (\<lambda>k s. case MemoryAdapter_get (clock s) k (sel s) of (r, st) \<Rightarrow> (Inr r, upd st s)),
      a_set = (\<lambda>k v ttl s. (Inr (), upd (MemoryAdapter_set (clock s) k v ttl (sel s)) s)),
      a_delete = (\<lambda>ka s. (Inr (), upd (MemoryAdapter_delete ka (sel s)) s)),
      a_clear = (\<lambda>p s. (Inr (), upd (MemoryAdapter_clear p (sel s)) s)),
      a_has = (\<lambda>k s. case MemoryAdapter_has (clock s) k (sel s) of (r, st) \<Rightarrow> (Inr r, upd st s)),
      a_mget = (\<lambda>ks s. case MemoryAdapter_mget (clock s) ks (sel s) of (r, st) \<Rightarrow> (Inr r, upd st s)),
      a_mset = (\<lambda>es ttl s. (Inr (), upd (MemoryAdapter_mset (clock s) es ttl (sel s)) s)),
      a_keys = (\<lambda>p s. (Inr (MemoryAdapter_keys p (sel s)), s)),
      a_stats = (\<lambda>s. case MemoryAdapter_stats json (clock s) (sel s) of (r, st) \<Rightarrow> (r, upd st s))\<rparr>"

section \<open>KeyvAdapter (src/unnamed/part_009, imported as adapters/keyv-adapter)\<close>

text \<open>
  The Keyv library is outside the repository: its client is the record of the four calls
  the adapter makes, \<open>keyv.get\<close> answering \<open>None\<close> for \<open>undefined\<close>. The adapter keeps its
  two counters and its start time in the world, behind \<open>sel\<close> and \<open>upd\<close>.
\<close>

record ('v, 's) Keyv =
  keyv_get :: "key \<Rightarrow> ('v option, 's) task"
  keyv_set :: "key \<Rightarrow> 'v \<Rightarrow> int option \<Rightarrow> (unit, 's) task"
  keyv_delete :: "key \<Rightarrow> (bool, 's) task"
  keyv_clear :: "(unit, 's) task"

record KeyvCounters =
  kv_hits :: int
  kv_misses :: int
  kv_startTime :: int

definition wrap_error :: "string \<Rightarrow> ('a, 's) task \<Rightarrow> ('a, 's) task" where
  "wrap_error msg m = try_catch m (\<lambda>_. reject (CacheError msg CONNECTION_ERROR))"

definition KeyvAdapter_get ::
  "('v, 's) Keyv \<Rightarrow> ('s \<Rightarrow> KeyvCounters) \<Rightarrow> (KeyvCounters \<Rightarrow> 's \<Rightarrow> 's) \<Rightarrow> key \<Rightarrow> ('v option, 's) task" where
  "KeyvAdapter_get kv sel upd k =
     wrap_error (''Failed to get key: '' @ k)
       (await (keyv_get kv k) (\<lambda>r s.
          case r of
            None \<Rightarrow> (Inr None, upd ((sel s)\<lparr>kv_misses := kv_misses (sel s) + 1\<rparr>) s)
          | Some v \<Rightarrow> (Inr (Some v), upd ((sel s)\<lparr>kv_hits := kv_hits (sel s) + 1\<rparr>) s)))"

definition KeyvAdapter_set :: "('v, 's) Keyv \<Rightarrow> key \<Rightarrow> 'v \<Rightarrow> int option \<Rightarrow> (unit, 's) task" where
  "KeyvAdapter_set kv k v ttl =
     wrap_error (''Failed to set key: '' @ k)
       (keyv_set kv k v (case ttl of None \<Rightarrow> None | Some t \<Rightarrow> if t \<noteq> 0 then Some (t * 1000) else None))"

fun keyv_delete_all :: "('v, 's) Keyv \<Rightarrow> key list \<Rightarrow> (unit, 's) task" where
  "keyv_delete_all kv [] = resolve ()"
| "keyv_delete_all kv (k # ks) =
     await (promise_all2 (keyv_delete kv k) (keyv_delete_all kv ks)) (\<lambda>_. resolve ())"

definition KeyvAdapter_delete :: "('v, 's) Keyv \<Rightarrow> key_arg \<Rightarrow> (unit, 's) task" where
  "KeyvAdapter_delete kv ka =
     wrap_error ''Failed to delete key(s)''
       (case ka of Many ks \<Rightarrow> keyv_delete_all kv ks
        | One k \<Rightarrow> await (keyv_delete kv k) (\<lambda>_. resolve ()))"

text \<open>\<open>keys\<close> answers the empty array for every pattern: Keyv has no key listing.\<close>

definition KeyvAdapter_keys :: "string option \<Rightarrow> (key list, 's) task" where
  "KeyvAdapter_keys pattern = resolve []"

definition KeyvAdapter_clear :: "('v, 's) Keyv \<Rightarrow> string option \<Rightarrow> (unit, 's) task" where
  "KeyvAdapter_clear kv pattern =
     wrap_error ''Failed to clear cache''
       (if pattern \<noteq> None \<and> pattern \<noteq> Some []
        then await (KeyvAdapter_keys pattern) (\<lambda>ks.
               if length ks > 0 then KeyvAdapter_delete kv (Many ks) else resolve ())
        else keyv_clear kv)"

definition KeyvAdapter_has :: "('v, 's) Keyv \<Rightarrow> key \<Rightarrow> (bool, 's) task" where
  "KeyvAdapter_has kv k =
     wrap_error (''Failed to check key: '' @ k)
       (await (keyv_get kv k) (\<lambda>r. resolve (r \<noteq> None)))"

fun keyv_get_all ::
  "('v, 's) Keyv \<Rightarrow> ('s \<Rightarrow> KeyvCounters) \<Rightarrow> (KeyvCounters \<Rightarrow> 's \<Rightarrow> 's) \<Rightarrow> key list
     \<Rightarrow> ((key \<times> 'v option) list, 's) task" where
  "keyv_get_all kv sel upd [] = resolve []"
| "keyv_get_all kv sel upd (k # ks) =
     await (promise_all2 (KeyvAdapter_get kv sel upd k) (keyv_get_all kv sel upd ks))
       (\<lambda>(v, rest). resolve ((k, v) # rest))"

definition KeyvAdapter_mget ::
  "('v, 's) Keyv \<Rightarrow> ('s \<Rightarrow> KeyvCounters) \<Rightarrow> (KeyvCounters \<Rightarrow> 's \<Rightarrow> 's) \<Rightarrow> key list
     \<Rightarrow> ((key \<times> 'v) list, 's) task" where
  "KeyvAdapter_mget kv sel upd ks =
     wrap_error ''Failed to get multiple keys''
       (await (keyv_get_all kv sel upd ks) (\<lambda>values.
          resolve (foldl (\<lambda>results (k, value).
                     case value of None \<Rightarrow> results | Some v \<Rightarrow> AList.update k v results) [] values)))"

fun keyv_set_all :: "('v, 's) Keyv \<Rightarrow> (key \<times> 'v) list \<Rightarrow> int option \<Rightarrow> (unit, 's) task" where
  "keyv_set_all kv [] ttl = resolve ()"
| "keyv_set_all kv ((k, v) # es) ttl =
     await (promise_all2 (KeyvAdapter_set kv k v ttl) (keyv_set_all kv es ttl)) (\<lambda>_. resolve ())"

definition KeyvAdapter_mset :: "('v, 's) Keyv \<Rightarrow> (key \<times> 'v) list \<Rightarrow> int option \<Rightarrow> (unit, 's) task" where
  "KeyvAdapter_mset kv es ttl = wrap_error ''Failed to set multiple keys'' (keyv_set_all kv es ttl)"

definition KeyvAdapter_stats :: "('s \<Rightarrow> int) \<Rightarrow> ('s \<Rightarrow> KeyvCounters) \<Rightarrow> (CacheStats, 's) task" where
  "KeyvAdapter_stats clock sel s =
     (Inr \<lparr>hits = kv_hits (sel s), misses = kv_misses (sel s), keys = - 1, memory = - 1,
           uptime = clock s - kv_startTime (sel s)\<rparr>, s)"

definition KeyvAdapter_adapter ::
  "('v, 's) Keyv \<Rightarrow> ('s \<Rightarrow> int) \<Rightarrow> ('s \<Rightarrow> KeyvCounters) \<Rightarrow> (KeyvCounters \<Rightarrow> 's \<Rightarrow> 's)
     \<Rightarrow> ('v, 's) ICacheAdapter" where
  "KeyvAdapter_adapter kv clock sel upd =
     \<lparr>a_get = KeyvAdapter_get kv sel upd,
      a_set = KeyvAdapter_set kv,
      a_delete = KeyvAdapter_delete kv,
      a_clear = KeyvAdapter_clear kv,
      a_has = KeyvAdapter_has kv,
      a_mget = KeyvAdapter_mget kv sel upd,
      a_mset = KeyvAdapter_mset kv,
      a_keys = KeyvAdapter_keys,
      a_stats = KeyvAdapter_stats clock sel\<rparr>"

section \<open>CacheManager (src/src/core/cache-manager.ts)\<close>

record CacheConfig =
  cfg_namespace :: "string option"
  cfg_defaultTTL :: "int option"
  cfg_enableMetrics :: "bool option"

record ('v, 's) CacheManager =
  adapter :: "('v, 's) ICacheAdapter"
  namespace :: string
  defaultTTL :: int
  enableMetrics :: bool

text \<open>
  The constructor: \<open>config.namespace || ''\<close>, \<open>config.defaultTTL || 3600\<close> and
  \<open>config.enableMetrics ?? false\<close>.
\<close>

definition CacheManager_new :: "('v, 's) ICacheAdapter \<Rightarrow> CacheConfig \<Rightarrow> ('v, 's) CacheManager" where
  "CacheManager_new a config =
     \<lparr>adapter = a,
      namespace = (case cfg_namespace config of None \<Rightarrow> [] | Some n \<Rightarrow> n),
      defaultTTL = (case cfg_defaultTTL config of None \<Rightarrow> 3600 | Some t \<Rightarrow> if t = 0 then 3600 else t),
      enableMetrics = (case cfg_enableMetrics config of None \<Rightarrow> False | Some b \<Rightarrow> b)\<rparr>"

definition buildKey :: "('v, 's) CacheManager \<Rightarrow> key \<Rightarrow> key" where
  "buildKey cm k = (if namespace cm \<noteq> [] then namespace cm @ '':'' @ k else k)"

definition startsWith :: "string \<Rightarrow> string \<Rightarrow> bool" where
  "startsWith s prefix \<longleftrightarrow> take (length prefix) s = prefix"

definition removeNamespace :: "('v, 's) CacheManager \<Rightarrow> key \<Rightarrow> key" where
  "removeNamespace cm fullKey =
     (if namespace cm = [] then fullKey
      else let prefix = namespace cm @ '':''
           in if startsWith fullKey prefix then drop (length prefix) fullKey else fullKey)"

definition CacheManager_get :: "('v, 's) CacheManager \<Rightarrow> key \<Rightarrow> ('v option, 's) task" where
  "CacheManager_get cm k = a_get (adapter cm) (buildKey cm k)"

text \<open>\<open>const effectiveTTL = ttl ?? this.defaultTTL\<close>: only an absent ttl takes the default.\<close>

definition CacheManager_set :: "('v, 's) CacheManager \<Rightarrow> key \<Rightarrow> 'v \<Rightarrow> int option \<Rightarrow> (unit, 's) task" where
  "CacheManager_set cm k v ttl =
     (let fullKey = buildKey cm k;
          effectiveTTL = (case ttl of None \<Rightarrow> defaultTTL cm | Some t \<Rightarrow> t)
      in a_set (adapter cm) fullKey v (Some effectiveTTL))"

definition CacheManager_delete :: "('v, 's) CacheManager \<Rightarrow> key_arg \<Rightarrow> (unit, 's) task" where
  "CacheManager_delete cm ka =
     (case ka of
        Many ks \<Rightarrow> a_delete (adapter cm) (Many (map (buildKey cm) ks))
      | One k \<Rightarrow> a_delete (adapter cm) (One (buildKey cm k)))"

text \<open>\<open>pattern ? this.buildKey(pattern) : undefined\<close>: an empty pattern counts as absent.\<close>

definition fullPattern :: "('v, 's) CacheManager \<Rightarrow> string option \<Rightarrow> string option" where
  "fullPattern cm pattern =
     (case pattern of None \<Rightarrow> None | Some p \<Rightarrow> if p \<noteq> [] then Some (buildKey cm p) else None)"

definition CacheManager_clear :: "('v, 's) CacheManager \<Rightarrow> string option \<Rightarrow> (unit, 's) task" where
  "CacheManager_clear cm pattern = a_clear (adapter cm) (fullPattern cm pattern)"

definition CacheManager_has :: "('v, 's) CacheManager \<Rightarrow> key \<Rightarrow> (bool, 's) task" where
  "CacheManager_has cm k = a_has (adapter cm) (buildKey cm k)"

definition CacheManager_mget :: "('v, 's) CacheManager \<Rightarrow> key list \<Rightarrow> ((key \<times> 'v) list, 's) task" where
  "CacheManager_mget cm ks =
     await (a_mget (adapter cm) (map (buildKey cm) ks)) (\<lambda>results.
       resolve (foldl (\<lambda>normalized (fullKey, v). AList.update (removeNamespace cm fullKey) v normalized)
                  [] results))"

definition CacheManager_mset ::
  "('v, 's) CacheManager \<Rightarrow> (key \<times> 'v) list \<Rightarrow> int option \<Rightarrow> (unit, 's) task" where
  "CacheManager_mset cm entries ttl =
     (let fullEntries = foldl (\<lambda>acc (k, v). AList.update (buildKey cm k) v acc) [] entries;
          effectiveTTL = (case ttl of None \<Rightarrow> defaultTTL cm | Some t \<Rightarrow> t)
      in a_mset (adapter cm) fullEntries (Some effectiveTTL))"

text \<open>
  \<open>WrapOptions\<close>. A fallback is a literal or a function. \<open>wrap\<close> calls the function as
  \<open>options.fallback()\<close>; a JavaScript function reads a parameter that the call did not
  pass as \<open>undefined\<close>, so the function is modelled on what its first parameter receives:
  \<open>None\<close> when nothing was passed, \<open>Some e\<close> when the value \<open>e\<close> was.
\<close>

datatype ('v, 's) fallback = FallbackValue 'v | FallbackFn "js_error option \<Rightarrow> ('v, 's) task"

record ('v, 's) WrapOptions =
  opt_ttl :: "int option"
  opt_condition :: "('v \<Rightarrow> bool) option"
  opt_fallback :: "('v, 's) fallback option"

definition CacheManager_wrap ::
  "('v, 's) CacheManager \<Rightarrow> key \<Rightarrow> ('v, 's) task \<Rightarrow> ('v, 's) WrapOptions option \<Rightarrow> ('v, 's) task" where
  "CacheManager_wrap cm k factory options =
     await (CacheManager_get cm k) (\<lambda>cached.
       case cached of
         Some c \<Rightarrow> resolve c
       | None \<Rightarrow>
           try_catch
             (await factory (\<lambda>v.
                let shouldCache =
                      (case options of None \<Rightarrow> True
                       | Some opts \<Rightarrow> (case opt_condition opts of None \<Rightarrow> True | Some cond \<Rightarrow> cond v))
                in if shouldCache
                   then await (CacheManager_set cm k v (case options of None \<Rightarrow> None | Some opts \<Rightarrow> opt_ttl opts))
                          (\<lambda>_. resolve v)
                   else resolve v))
             (\<lambda>error.
                case (case options of None \<Rightarrow> None | Some opts \<Rightarrow> opt_fallback opts) of
                  Some (FallbackFn f) \<Rightarrow> f None
                | Some (FallbackValue x) \<Rightarrow> resolve x
                | None \<Rightarrow> reject error))"

definition CacheManager_stats :: "('v, 's) CacheManager \<Rightarrow> (CacheStats, 's) task" where
  "CacheManager_stats cm = a_stats (adapter cm)"

definition CacheManager_keys :: "('v, 's) CacheManager \<Rightarrow> string option \<Rightarrow> (key list, 's) task" where
  "CacheManager_keys cm pattern =
     await (a_keys (adapter cm) (fullPattern cm pattern)) (\<lambda>fullKeys.
       resolve (map (removeNamespace cm) fullKeys))"

section \<open>MultiTierAdapter (src/src/adapters/multi-tier-adapter.ts)\<close>

record ('v, 's) MultiTierAdapter =
  l1 :: "('v, 's) ICacheAdapter"
  l2 :: "('v, 's) ICacheAdapter"
  l1TTL :: int
  l2TTL :: int

text \<open>The constructor: \<open>options.l1TTL || 300\<close> and \<open>options.l2TTL || 3600\<close>.\<close>

definition or_default :: "int option \<Rightarrow> int \<Rightarrow> int" where
  "or_default x d = (case x of None \<Rightarrow> d | Some t \<Rightarrow> if t \<noteq> 0 then t else d)"

definition MultiTierAdapter_new ::
  "('v, 's) ICacheAdapter \<Rightarrow> ('v, 's) ICacheAdapter \<Rightarrow> int option \<Rightarrow> int option
     \<Rightarrow> ('v, 's) MultiTierAdapter" where
  "MultiTierAdapter_new a1 a2 t1 t2 =
     \<lparr>l1 = a1, l2 = a2, l1TTL = or_default t1 300, l2TTL = or_default t2 3600\<rparr>"

definition MultiTierAdapter_get :: "('v, 's) MultiTierAdapter \<Rightarrow> key \<Rightarrow> ('v option, 's) task" where
  "MultiTierAdapter_get mt k =
     await (a_get (l1 mt) k) (\<lambda>l1Value.
       case l1Value of
         Some v \<Rightarrow> resolve (Some v)
       | None \<Rightarrow>
           await (a_get (l2 mt) k) (\<lambda>l2Value.
             case l2Value of
               Some v \<Rightarrow> await (fire_and_forget (a_set (l1 mt) k v (Some (l1TTL mt))))
                           (\<lambda>_. resolve (Some v))
             | None \<Rightarrow> resolve None))"

definition MultiTierAdapter_set ::
  "('v, 's) MultiTierAdapter \<Rightarrow> key \<Rightarrow> 'v \<Rightarrow> int option \<Rightarrow> (unit, 's) task" where
  "MultiTierAdapter_set mt k v t =
     await (promise_all2 (a_set (l1 mt) k v (Some (or_default t (l1TTL mt))))
                         (a_set (l2 mt) k v (Some (or_default t (l2TTL mt)))))
       (\<lambda>_. resolve ())"

definition MultiTierAdapter_delete :: "('v, 's) MultiTierAdapter \<Rightarrow> key_arg \<Rightarrow> (unit, 's) task" where
  "MultiTierAdapter_delete mt ka =
     await (promise_all2 (a_delete (l1 mt) ka) (a_delete (l2 mt) ka)) (\<lambda>_. resolve ())"

definition MultiTierAdapter_clear :: "('v, 's) MultiTierAdapter \<Rightarrow> string option \<Rightarrow> (unit, 's) task" where
  "MultiTierAdapter_clear mt pattern =
     await (promise_all2 (a_clear (l1 mt) pattern) (a_clear (l2 mt) pattern)) (\<lambda>_. resolve ())"

definition MultiTierAdapter_has :: "('v, 's) MultiTierAdapter \<Rightarrow> key \<Rightarrow> (bool, 's) task" where
  "MultiTierAdapter_has mt k =
     await (a_has (l1 mt) k) (\<lambda>l1Has. if l1Has then resolve True else a_has (l2 mt) k)"

definition MultiTierAdapter_mget ::
  "('v, 's) MultiTierAdapter \<Rightarrow> key list \<Rightarrow> ((key \<times> 'v) list, 's) task" where
  "MultiTierAdapter_mget mt ks =
     await (a_mget (l1 mt) ks) (\<lambda>l1Results.
       let missingKeys = filter (\<lambda>k. map_of l1Results k = None) ks
       in if length missingKeys = 0 then resolve l1Results
          else await (a_mget (l2 mt) missingKeys) (\<lambda>l2Results.
                 await (if length l2Results > 0
                        then fire_and_forget (a_mset (l1 mt) l2Results (Some (l1TTL mt)))
                        else resolve ())
                   (\<lambda>_. resolve (foldl (\<lambda>combined (k, v). AList.update k v combined)
                                   l1Results l2Results))))"

definition MultiTierAdapter_mset ::
  "('v, 's) MultiTierAdapter \<Rightarrow> (key \<times> 'v) list \<Rightarrow> int option \<Rightarrow> (unit, 's) task" where
  "MultiTierAdapter_mset mt entries t =
     await (promise_all2 (a_mset (l1 mt) entries (Some (or_default t (l1TTL mt))))
                         (a_mset (l2 mt) entries (Some (or_default t (l2TTL mt)))))
       (\<lambda>_. resolve ())"

definition MultiTierAdapter_keys :: "('v, 's) MultiTierAdapter \<Rightarrow> string option \<Rightarrow> (key list, 's) task" where
  "MultiTierAdapter_keys mt pattern = a_keys (l2 mt) pattern"

text \<open>The combination of the two tiers' statistics, as \<open>stats()\<close> builds it.\<close>

definition combine_stats :: "CacheStats \<Rightarrow> CacheStats \<Rightarrow> CacheStats" where
  "combine_stats l1Stats l2Stats =
     \<lparr>hits = hits l1Stats + hits l2Stats,
      misses = max (misses l1Stats) (misses l2Stats),
      keys = keys l2Stats,
      memory = memory l1Stats + (if memory l2Stats > 0 then memory l2Stats else 0),
      uptime = min (uptime l1Stats) (uptime l2Stats)\<rparr>"

definition MultiTierAdapter_stats :: "('v, 's) MultiTierAdapter \<Rightarrow> (CacheStats, 's) task" where
  "MultiTierAdapter_stats mt =
     await (promise_all2 (a_stats (l1 mt)) (a_stats (l2 mt)))
       (\<lambda>(l1Stats, l2Stats). resolve (combine_stats l1Stats l2Stats))"

definition MultiTierAdapter_adapter :: "('v, 's) MultiTierAdapter \<Rightarrow> ('v, 's) ICacheAdapter" where
  "MultiTierAdapter_adapter mt =
     \<lparr>a_get = MultiTierAdapter_get mt,
      a_set = MultiTierAdapter_set mt,
      a_delete = MultiTierAdapter_delete mt,
      a_clear = MultiTierAdapter_clear mt,
      a_has = MultiTierAdapter_has mt,
      a_mget = MultiTierAdapter_mget mt,
      a_mset = MultiTierAdapter_mset mt,
      a_keys = MultiTierAdapter_keys mt,
      a_stats = MultiTierAdapter_stats mt\<rparr>"

section \<open>KeyGenerator (src/src/utils/key-generator.ts)\<close>

text \<open>
  The arguments of a call are JavaScript values. A number is an IEEE double and a value
  that is neither primitive nor a plain object (a function, a symbol, a bigint, an object
  with a prototype of its own) is a reference: the code looks into neither, so both are
  types without structure. A plain object is the list of its own properties.

  What the code asks of the language runtime is taken as an argument, the record \<open>rt\<close>,
  with the failures the runtime can answer with:
  \<^item> \<open>String_number\<close> is \<open>String(value)\<close> on a number;
  \<^item> \<open>String_value\<close> is \<open>String(value)\<close> on any other value, which throws on a value that
    cannot be converted to a primitive;
  \<^item> \<open>JSON_stringify\<close> is \<open>JSON.stringify(value)\<close>: it throws (on a cyclic value, on a
    bigint), answers \<open>undefined\<close> (\<open>None\<close>, on a function or a symbol) or answers the text;
  \<^item> \<open>get_property\<close> is \<open>value[prop]\<close> on a value other than \<open>null\<close> and \<open>undefined\<close>, with
    the inherited properties the runtime finds, and throws when a getter does;
  \<^item> \<open>md5_hex\<close> is the MD5 digest in hexadecimal.
\<close>

typedecl js_number

typedecl js_reference

datatype jsval =
  JUndefined | JNull | JBool bool | JNum js_number | JStr string
  | JArr "jsval list" | JObj "(string \<times> jsval) list" | JRef js_reference

record runtime =
  String_number :: "js_number \<Rightarrow> string"
  String_value :: "jsval \<Rightarrow> js_error + string"
  JSON_stringify :: "jsval \<Rightarrow> js_error + string option"
  get_property :: "jsval \<Rightarrow> string \<Rightarrow> js_error + jsval"
  md5_hex :: "string \<Rightarrow> string"

definition is_digit :: "char \<Rightarrow> bool" where
  "is_digit c \<longleftrightarrow> 48 \<le> (of_char c :: nat) \<and> (of_char c :: nat) \<le> 57"

text \<open>The test \<open>/^\d+$/\<close>.\<close>

definition all_digits :: "string \<Rightarrow> bool" where
  "all_digits s \<longleftrightarrow> s \<noteq> [] \<and> list_all is_digit s"

text \<open>
  \<open>parseInt(expr, 10)\<close> on a string of digits, and \<open>args[index]\<close>: reading past the end of
  an array gives \<open>undefined\<close>. (Where \<open>parseInt\<close> rounds, beyond \<open>2^53\<close>, the index is past the
  end of any array.)
\<close>

definition parseInt :: "string \<Rightarrow> nat" where
  "parseInt s = foldl (\<lambda>n c. 10 * n + ((of_char c :: nat) - 48)) 0 s"

definition arg_at :: "jsval list \<Rightarrow> nat \<Rightarrow> jsval" where
  "arg_at args i = (if i < length args then args ! i else JUndefined)"

text \<open>
  \<open>stringify\<close> answers a string, or \<open>undefined\<close> (\<open>None\<close>) where \<open>JSON.stringify\<close> does;
  where \<open>JSON.stringify\<close> throws it answers \<open>String(value)\<close>, which can throw in turn.
\<close>

definition stringify :: "runtime \<Rightarrow> jsval \<Rightarrow> js_error + string option" where
  "stringify rt v =
     (case v of
        JNull \<Rightarrow> Inr (Some [])
      | JUndefined \<Rightarrow> Inr (Some [])
      | JStr s \<Rightarrow> Inr (Some s)
      | JNum n \<Rightarrow> Inr (Some (String_number rt n))
      | JBool b \<Rightarrow> Inr (Some (if b then ''true'' else ''false''))
      | _ \<Rightarrow> (case JSON_stringify rt v of
                Inr r \<Rightarrow> Inr r
              | Inl _ \<Rightarrow> (case String_value rt v of Inl e \<Rightarrow> Inl e | Inr t \<Rightarrow> Inr (Some t))))"

text \<open>\<open>expr.split('.')\<close>.\<close>

fun split_dot :: "string \<Rightarrow> string list" where
  "split_dot [] = [[]]"
| "split_dot (c # cs) =
     (if c = CHR ''.'' then [] # split_dot cs
      else (case split_dot cs of [] \<Rightarrow> [[c]] | w # ws \<Rightarrow> (c # w) # ws))"

text \<open>
  The loop \<open>for (const prop of parts)\<close> of \<open>evaluatePropertyAccess\<close>; \<open>None\<close> is its early
  \<open>return ''\<close> on a \<open>null\<close> or \<open>undefined\<close> step.
\<close>

fun navigate :: "runtime \<Rightarrow> jsval \<Rightarrow> string list \<Rightarrow> js_error + jsval option" where
  "navigate rt v [] = Inr (Some v)"
| "navigate rt v (prop # parts) =
     (case v of
        JNull \<Rightarrow> Inr None
      | JUndefined \<Rightarrow> Inr None
      | _ \<Rightarrow> (case get_property rt v prop of
                Inl e \<Rightarrow> Inl e
              | Inr x \<Rightarrow> navigate rt x parts))"

definition evaluatePropertyAccess ::
  "runtime \<Rightarrow> string \<Rightarrow> jsval list \<Rightarrow> js_error + string option" where
  "evaluatePropertyAccess rt expr args =
     (let parts = split_dot expr;
          (v, parts') = (if all_digits (hd parts) then (arg_at args (parseInt (hd parts)), tl parts)
                         else (arg_at args 0, parts))
      in case navigate rt v parts' of
           Inl e \<Rightarrow> Inl e
         | Inr None \<Rightarrow> Inr (Some [])
         | Inr (Some x) \<Rightarrow> stringify rt x)"

definition evaluateExpression :: "runtime \<Rightarrow> string \<Rightarrow> jsval list \<Rightarrow> js_error + string option" where
  "evaluateExpression rt expr args =
     (if all_digits expr then stringify rt (arg_at args (parseInt expr))
      else if CHR ''.'' \<in> set expr then evaluatePropertyAccess rt expr args
      else stringify rt (arg_at args 0))"

text \<open>
  \<open>pattern.replace(/#\{([^}]+)\}/g, callback)\<close> scans the pattern from left to right. Where
  the text reads \<open>#{\<close>, then at least one character other than \<open>}\<close>, then \<open>}\<close>, the regular
  expression matches: the match is a token, its selector the text between the braces, and
  the scan goes on behind it. Any other character is copied and the scan goes on with the
  next one. \<open>until_brace\<close> reads the text behind \<open>#{\<close> up to the first \<open>}\<close> and gives the
  selector and the text behind that \<open>}\<close>; \<open>regex_scan\<close> gives the copied characters
  (\<open>Inl\<close>) and the selectors of the tokens (\<open>Inr\<close>) in the order of the pattern.
\<close>

fun until_brace :: "string \<Rightarrow> (string \<times> string) option" where
  "until_brace [] = None"
| "until_brace (c # cs) =
     (if c = CHR ''}'' then Some ([], cs)
      else (case until_brace cs of None \<Rightarrow> None | Some (e, r) \<Rightarrow> Some (c # e, r)))"

definition token_at :: "string \<Rightarrow> (string \<times> string) option" where
  "token_at s =
     (case s of
        c # b # rest \<Rightarrow>
          if c = CHR ''#'' \<and> b = CHR ''{''
          then (case until_brace rest of
                  None \<Rightarrow> None
                | Some (e, r) \<Rightarrow> if e \<noteq> [] then Some (e, r) else None)
          else None
      | _ \<Rightarrow> None)"

function regex_scan :: "string \<Rightarrow> (char + string) list" where
  "regex_scan [] = []"
| "regex_scan (c # cs) =
     (case token_at (c # cs) of
        Some (expr, r) \<Rightarrow> Inr expr # regex_scan r
      | None \<Rightarrow> Inl c # regex_scan cs)"
  by pat_completeness auto
termination
proof (relation "measure length")
  show "wf (measure (length :: string \<Rightarrow> nat))" by simp
next
  fix c :: char and cs :: string and x2 :: "string \<times> string" and expr r :: string
  assume tok: "token_at (c # cs) = Some x2" and x2: "(expr, r) = x2"
  have ub: "length r' < Suc (length s)" if "until_brace s = Some (e', r')" for s e' r'
    using that by (induction s arbitrary: e') (auto split: if_splits option.splits)
  from tok x2 have "length r < length (c # cs)"
    by (auto simp: token_at_def split: list.splits if_splits option.splits dest!: ub)
  then show "(r, c # cs) \<in> measure length" by simp
next
  fix c :: char and cs :: string
  show "(cs, c # cs) \<in> measure length" by simp
qed

text \<open>
  \<open>replace\<close> calls the callback on each token, from left to right, and writes what it
  answers in place of the token: the string, or the text \<open>undefined\<close> for \<open>undefined\<close>. A
  failure of the callback ends the \<open>replace\<close>.
\<close>

definition to_text :: "string option \<Rightarrow> string" where
  "to_text r = (case r of None \<Rightarrow> ''undefined'' | Some t \<Rightarrow> t)"

definition replacement :: "runtime \<Rightarrow> jsval list \<Rightarrow> char + string \<Rightarrow> js_error + string" where
  "replacement rt args part =
     (case part of
        Inl c \<Rightarrow> Inr [c]
      | Inr expr \<Rightarrow> (case evaluateExpression rt expr args of
                       Inl e \<Rightarrow> Inl e
                     | Inr r \<Rightarrow> Inr (to_text r)))"

fun replace_parts :: "(char + string \<Rightarrow> js_error + string) \<Rightarrow> (char + string) list \<Rightarrow> js_error + string" where
  "replace_parts f [] = Inr []"
| "replace_parts f (part # parts) =
     (case f part of
        Inl e \<Rightarrow> Inl e
      | Inr t \<Rightarrow> (case replace_parts f parts of Inl e \<Rightarrow> Inl e | Inr rest \<Rightarrow> Inr (t @ rest)))"

definition parseExpression :: "runtime \<Rightarrow> string \<Rightarrow> jsval list \<Rightarrow> js_error + string" where
  "parseExpression rt pattern args = replace_parts (replacement rt args) (regex_scan pattern)"

text \<open>\<open>String(n)\<close> on a natural number such as \<open>args.length\<close>: its decimal digits.\<close>

fun string_of_nat :: "nat \<Rightarrow> string" where
  "string_of_nat n =
     (if n < 10 then [char_of (48 + n)]
      else string_of_nat (n div 10) @ [char_of (48 + n mod 10)])"

declare string_of_nat.simps [simp del]

text \<open>
  \<open>hashArgs\<close> digests the JSON text of the arguments; where \<open>JSON.stringify\<close> throws, or
  answers \<open>undefined\<close> (which the digest refuses with a \<open>TypeError\<close>), the \<open>catch\<close> digests the
  number of arguments instead.
\<close>

definition hashArgs :: "runtime \<Rightarrow> jsval list \<Rightarrow> string" where
  "hashArgs rt args =
     (case JSON_stringify rt (JArr args) of
        Inr (Some str) \<Rightarrow> take 16 (md5_hex rt str)
      | _ \<Rightarrow> take 16 (md5_hex rt (string_of_nat (length args))))"

definition defaultKey :: "runtime \<Rightarrow> string \<Rightarrow> jsval list \<Rightarrow> string" where
  "defaultKey rt methodName args = methodName @ '':'' @ hashArgs rt args"

text \<open>\<open>if (!pattern)\<close>: an absent or empty pattern gives the default key.\<close>

definition generate :: "runtime \<Rightarrow> string option \<Rightarrow> jsval list \<Rightarrow> string \<Rightarrow> js_error + string" where
  "generate rt pattern args methodName =
     (case pattern of
        None \<Rightarrow> Inr (defaultKey rt methodName args)
      | Some p \<Rightarrow> if p = [] then Inr (defaultKey rt methodName args)
                  else parseExpression rt p args)"

section \<open>The cache manager of a decorated method (src/unnamed/part_007)\<close>

text \<open>
  \<open>getCacheManager(instance)\<close> reads the \<open>cacheManager\<close> property of the instance, then its
  symbol property, then the global manager, and throws when all three are missing.
\<close>

record ('v, 's) receiver =
  inst_cacheManager :: "('v, 's) CacheManager option"
  inst_symbol :: "('v, 's) CacheManager option"

definition getCacheManager ::
  "('v, 's) receiver \<Rightarrow> ('v, 's) CacheManager option \<Rightarrow> js_error + ('v, 's) CacheManager" where
  "getCacheManager this globalCacheManager =
     (case inst_cacheManager this of
        Some m \<Rightarrow> Inr m
      | None \<Rightarrow>
          (case inst_symbol this of
             Some m \<Rightarrow> Inr m
           | None \<Rightarrow>
               (case globalCacheManager of
                  Some m \<Rightarrow> Inr m
                | None \<Rightarrow>
                    Inl (Error (''CacheManager not found. Either inject CacheManager in your class constructor, ''
                                @ ''or call setGlobalCacheManager() before using decorators.'')))))"

section \<open>TurboCacheEvict (src/unnamed/part_008)\<close>

text \<open>
  The wrapped method returns a value of type \<open>'r\<close>; the condition of the options is called
  with the result, \<open>null\<close> (\<open>None\<close>) when the eviction runs before the method, and with the
  arguments of the call.
\<close>

record 'r TurboCacheEvictOptions =
  evict_key :: "string option"
  allEntries :: "bool option"
  beforeInvocation :: "bool option"
  evict_store :: "string option"
  evict_namespace :: "string option"
  evict_condition :: "('r option \<Rightarrow> jsval list \<Rightarrow> bool) option"

definition truthy :: "bool option \<Rightarrow> bool" where
  "truthy b \<longleftrightarrow> b = Some True"

definition evictCache ::
  "runtime \<Rightarrow> ('v, 's) CacheManager \<Rightarrow> 'r option \<Rightarrow> jsval list \<Rightarrow> 'r TurboCacheEvictOptions \<Rightarrow> string
     \<Rightarrow> (unit, 's) task" where
  "evictCache rt cacheManager result args options propertyKey =
     (if (case evict_condition options of None \<Rightarrow> False | Some cond \<Rightarrow> \<not> cond result args)
      then resolve ()
      else if truthy (allEntries options)
      then await (CacheManager_clear cacheManager (evict_namespace options)) (\<lambda>_. resolve ())
      else (case evict_key options of
              None \<Rightarrow> resolve ()
            | Some pat \<Rightarrow>
                if pat \<noteq> []
                then (case generate rt (Some pat) args propertyKey of
                        Inl e \<Rightarrow> reject e
                      | Inr cacheKey \<Rightarrow>
                          await (CacheManager_delete cacheManager (One cacheKey))
                            (\<lambda>_. resolve ()))
                else resolve ()))"

text \<open>
  The function that the decorator installs in place of \<open>originalMethod\<close>, called on \<open>this\<close>
  with \<open>args\<close>.
\<close>

definition TurboCacheEvict ::
  "runtime \<Rightarrow> 'r TurboCacheEvictOptions \<Rightarrow> string \<Rightarrow> (jsval list \<Rightarrow> ('r, 's) task)
     \<Rightarrow> ('v, 's) receiver \<Rightarrow> ('v, 's) CacheManager option \<Rightarrow> jsval list \<Rightarrow> ('r, 's) task" where
  "TurboCacheEvict rt options propertyKey originalMethod this globalCacheManager args =
     (case getCacheManager this globalCacheManager of
        Inl e \<Rightarrow> reject e
      | Inr cacheManager \<Rightarrow>
          await (if truthy (beforeInvocation options)
                 then evictCache rt cacheManager None args options propertyKey
                 else resolve ())
            (\<lambda>_. try_catch
                    (await (originalMethod args) (\<lambda>result.
                       await (if \<not> truthy (beforeInvocation options)
                              then evictCache rt cacheManager (Some result) args options propertyKey
                              else resolve ())
                         (\<lambda>_. resolve result)))
                    (\<lambda>error. reject error)))"

section \<open>A world with two memory stores and a remote store\<close>

text \<open>
  The worlds used below to run the code: a clock, two \<open>MemoryAdapter\<close> objects and the
  counters of a \<open>KeyvAdapter\<close>.
\<close>

record 'v world =
  clock :: int
  hot :: "'v MemoryAdapter"
  cold :: "'v MemoryAdapter"
  remote :: KeyvCounters

definition hot_adapter :: "('v \<Rightarrow> js_error + string) \<Rightarrow> ('v, 'v world) ICacheAdapter" where
  "hot_adapter json = MemoryAdapter_adapter json clock hot (\<lambda>st s. s\<lparr>hot := st\<rparr>)"

definition cold_adapter :: "('v \<Rightarrow> js_error + string) \<Rightarrow> ('v, 'v world) ICacheAdapter" where
  "cold_adapter json = MemoryAdapter_adapter json clock cold (\<lambda>st s. s\<lparr>cold := st\<rparr>)"

definition remote_adapter :: "('v, 'v world) Keyv \<Rightarrow> ('v, 'v world) ICacheAdapter" where
  "remote_adapter kv = KeyvAdapter_adapter kv clock remote (\<lambda>c s. s\<lparr>remote := c\<rparr>)"

definition new_world :: "real option \<Rightarrow> int \<Rightarrow> 'v world" where
  "new_world mx now =
     \<lparr>clock = now, hot = MemoryAdapter_new mx None now, cold = MemoryAdapter_new mx None now,
      remote = \<lparr>kv_hits = 0, kv_misses = 0, kv_startTime = now\<rparr>\<rparr>"

definition no_config :: CacheConfig where
  "no_config = \<lparr>cfg_namespace = None, cfg_defaultTTL = None, cfg_enableMetrics = None\<rparr>"

section \<open>Sequences of operations on a MemoryAdapter\<close>

text \<open>
  The public operations of the store and the periodic sweep, each at the instant the
  clock shows when it runs; \<open>run_ops\<close> applies a sequence of them to a store.
\<close>

datatype 'v mem_op =
  OpGet key | OpSet key 'v "int option" | OpDelete key_arg | OpClear "string option"
  | OpHas key | OpMget "key list" | OpMset "(key \<times> 'v) list" "int option"
  | OpKeys "string option" | OpStats | OpCleanup

fun apply_op :: "('v \<Rightarrow> js_error + string) \<Rightarrow> int \<Rightarrow> 'v mem_op \<Rightarrow> 'v MemoryAdapter \<Rightarrow> 'v MemoryAdapter" where
  "apply_op json now (OpGet k) st = snd (MemoryAdapter_get now k st)"
| "apply_op json now (OpSet k v t) st = MemoryAdapter_set now k v t st"
| "apply_op json now (OpDelete ka) st = MemoryAdapter_delete ka st"
| "apply_op json now (OpClear p) st = MemoryAdapter_clear p st"
| "apply_op json now (OpHas k) st = snd (MemoryAdapter_has now k st)"
| "apply_op json now (OpMget ks) st = snd (MemoryAdapter_mget now ks st)"
| "apply_op json now (OpMset es t) st = MemoryAdapter_mset now es t st"
| "apply_op json now (OpKeys p) st = st"
| "apply_op json now OpStats st = snd (MemoryAdapter_stats json now st)"
| "apply_op json now OpCleanup st = cleanup now st"

fun run_ops ::
  "('v \<Rightarrow> js_error + string) \<Rightarrow> 'v MemoryAdapter \<Rightarrow> (int \<times> 'v mem_op) list \<Rightarrow> 'v MemoryAdapter" where
  "run_ops json st [] = st"
| "run_ops json st ((now, x) # ops) = run_ops json (apply_op json now x st) ops"

text \<open>The keys an operation writes.\<close>

fun written_keys :: "'v mem_op \<Rightarrow> key list" where
  "written_keys (OpSet k v t) = [k]"
| "written_keys (OpMset es t) = map fst es"
| "written_keys _ = []"

text \<open>
  The capacity invariant, for a bound that is a positive whole number: distinct keys, no
  more entries than the bound, and no entry under the empty key.
\<close>

definition bounded :: "'v MemoryAdapter \<Rightarrow> bool" where
  "bounded st \<longleftrightarrow> distinct (map fst (cache st))
     \<and> 0 < max_items st \<and> real_of_int \<lfloor>max_items st\<rfloor> = max_items st
     \<and> real (length (cache st)) \<le> max_items st \<and> [] \<notin> fst ` set (cache st)"

text \<open>
  An entry is live at an instant when it is there and passes the expiry test: what \<open>get\<close>
  and \<open>has\<close> answer for.
\<close>

definition live :: "int \<Rightarrow> 'v MemoryAdapter \<Rightarrow> key \<Rightarrow> bool" where
  "live now st k = (case map_of (cache st) k of None \<Rightarrow> False | Some e \<Rightarrow> \<not> expired now e)"

text \<open>
  An operation spares the key \<open>k\<close> on a store when it neither deletes, overwrites nor
  evicts \<open>k\<close>: it is no \<open>set\<close> of \<open>k\<close>, no \<open>delete\<close> of \<open>k\<close>, no \<open>clear\<close> whose pattern
  matches \<open>k\<close> (or that has no pattern), and no \<open>set\<close> of a new key into a full store whose
  oldest key is \<open>k\<close> (for a \<open>k\<close> other than the empty key, which \<open>set\<close> never evicts). An
  \<open>mset\<close> spares \<open>k\<close> when each of its \<open>set\<close>s does, one after the other; a sequence of
  operations does when each operation does on the store it meets.
\<close>

definition set_spares :: "key \<Rightarrow> key \<Rightarrow> 'v MemoryAdapter \<Rightarrow> bool" where
  "set_spares k k' st \<longleftrightarrow> k' \<noteq> k
     \<and> \<not> (max_items st \<noteq> 0 \<and> real (length (cache st)) \<ge> max_items st
          \<and> map_of (cache st) k' = None \<and> map fst (take 1 (cache st)) = [k] \<and> k \<noteq> [])"

fun mset_spares :: "key \<Rightarrow> int \<Rightarrow> (key \<times> 'v) list \<Rightarrow> int option \<Rightarrow> 'v MemoryAdapter \<Rightarrow> bool" where
  "mset_spares k now [] t st = True"
| "mset_spares k now ((k', v) # es) t st =
     (set_spares k k' st \<and> mset_spares k now es t (MemoryAdapter_set now k' v t st))"

fun spares :: "key \<Rightarrow> int \<Rightarrow> 'v mem_op \<Rightarrow> 'v MemoryAdapter \<Rightarrow> bool" where
  "spares k now (OpSet k' v t) st = set_spares k k' st"
| "spares k now (OpMset es t) st = mset_spares k now es t st"
| "spares k now (OpDelete (One k')) st = (k' \<noteq> k)"
| "spares k now (OpDelete (Many ks)) st = (k \<notin> set ks)"
| "spares k now (OpClear None) st = False"
| "spares k now (OpClear (Some p)) st = (p \<noteq> [] \<and> \<not> glob_test p k)"
| "spares k now _ st = True"

fun spared :: "key \<Rightarrow> ('v \<Rightarrow> js_error + string) \<Rightarrow> 'v MemoryAdapter \<Rightarrow> (int \<times> 'v mem_op) list \<Rightarrow> bool" where
  "spared k json st [] = True"
| "spared k json st ((now, x) # ops) =
     (spares k now x st \<and> spared k json (apply_op json now x st) ops)"

text \<open>The store holds \<open>v\<close> under \<open>k\<close> with no expiry.\<close>

definition holds_forever :: "key \<Rightarrow> 'v \<Rightarrow> 'v MemoryAdapter \<Rightarrow> bool" where
  "holds_forever k v st \<longleftrightarrow> distinct (map fst (cache st))
     \<and> map_of (cache st) k = Some \<lparr>entry_value = v, expiresAt = 0\<rparr>"

text \<open>
  In a pattern, every \<open>#{\<close> of the text \<open>pre\<close> has its \<open>}\<close> inside \<open>pre\<close>: no token that starts
  in \<open>pre\<close> reaches beyond it.
\<close>

fun tokens_closed :: "string \<Rightarrow> bool" where
  "tokens_closed [] = True"
| "tokens_closed (c # cs) =
     ((if c = CHR ''#'' \<and> take 1 cs = ''{'' then CHR ''}'' \<in> set (drop 1 cs) else True)
      \<and> tokens_closed cs)"

section \<open>Inputs used to run the code\<close>

text \<open>
  A Keyv client over a store that holds nothing and refuses writes; a fallback function
  that tells whether it was handed an argument; a runtime for calls that reach neither
  the serializer nor the digest; the managers and the two-tier adapters over the stores
  of the world.
\<close>

definition write_refusing_keyv :: "('v, 's) Keyv" where
  "write_refusing_keyv =
     \<lparr>keyv_get = (\<lambda>k. resolve None),
      keyv_set = (\<lambda>k v t. reject (Error ''READONLY'')),
      keyv_delete = (\<lambda>k. resolve False),
      keyv_clear = resolve ()\<rparr>"

definition probe :: "js_error option \<Rightarrow> (nat, 's) task" where
  "probe a = resolve (case a of None \<Rightarrow> 0 | Some e \<Rightarrow> 1)"

text \<open>
  A runtime for calls whose arguments are strings and plain objects of strings: its
  property read finds the own properties of a plain object, and its other functions are
  not reached.
\<close>

definition plain_runtime :: runtime where
  "plain_runtime =
     \<lparr>String_number = (\<lambda>n. []),
      String_value = (\<lambda>v. Inr []),
      JSON_stringify = (\<lambda>v. Inr (Some [])),
      get_property = (\<lambda>v p. case v of
                         JObj props \<Rightarrow> (case map_of props p of None \<Rightarrow> Inr JUndefined | Some x \<Rightarrow> Inr x)
                       | _ \<Rightarrow> Inr JUndefined),
      md5_hex = (\<lambda>s. [])\<rparr>"

text \<open>The JSON text of a natural number, for stores of natural numbers.\<close>

definition json_of_nat :: "nat \<Rightarrow> js_error + string" where
  "json_of_nat n = Inr (string_of_nat n)"

definition remote_manager :: "(nat, nat world) CacheManager" where
  "remote_manager = CacheManager_new (remote_adapter write_refusing_keyv) no_config"

definition hot_manager :: "(nat, nat world) CacheManager" where
  "hot_manager = CacheManager_new (hot_adapter json_of_nat) no_config"

definition memory_tiers :: "('v \<Rightarrow> js_error + string) \<Rightarrow> int option \<Rightarrow> int option \<Rightarrow> ('v, 'v world) MultiTierAdapter" where
  "memory_tiers json t1 t2 = MultiTierAdapter_new (hot_adapter json) (cold_adapter json) t1 t2"

definition memory_over_remote :: "(nat, nat world) MultiTierAdapter" where
  "memory_over_remote =
     MultiTierAdapter_new (hot_adapter json_of_nat) (remote_adapter write_refusing_keyv) None None"

text \<open>The world after \<open>set('user:1', 7)\<close> on the two memory tiers of a new world.\<close>

definition populated_world :: "nat world" where
  "populated_world =
     snd (MultiTierAdapter_set (memory_tiers json_of_nat None None) ''user:1'' 7 None
            (new_world None 0))"

text \<open>
  An object whose \<open>cacheManager\<close> property is the manager of the hot store, and the two
  configurations \<open>{key: 'user:#{0}', beforeInvocation: true}\<close> and \<open>{key: 'user:#{0}'}\<close>.
\<close>

definition hot_receiver :: "(nat, nat world) receiver" where
  "hot_receiver = \<lparr>inst_cacheManager = Some hot_manager, inst_symbol = None\<rparr>"

definition evict_before :: "nat TurboCacheEvictOptions" where
  "evict_before =
     \<lparr>evict_key = Some ''user:#{0}'', allEntries = None, beforeInvocation = Some True,
      evict_store = None, evict_namespace = None, evict_condition = None\<rparr>"

text \<open>
  The configuration \<open>{key: 'user:#{0}', beforeInvocation: true, condition: (result) => result !== null}\<close>.
\<close>

definition evict_before_if_result :: "nat TurboCacheEvictOptions" where
  "evict_before_if_result =
     \<lparr>evict_key = Some ''user:#{0}'', allEntries = None, beforeInvocation = Some True,
      evict_store = None, evict_namespace = None,
      evict_condition = Some (\<lambda>result args. result \<noteq> None)\<rparr>"

text \<open>
  The configuration \<open>{key: 'user:#{0}', allEntries: true, namespace: 'users', beforeInvocation: true}\<close>.
\<close>

definition evict_before_all_users :: "nat TurboCacheEvictOptions" where
  "evict_before_all_users =
     \<lparr>evict_key = Some ''user:#{0}'', allEntries = Some True, beforeInvocation = Some True,
      evict_store = None, evict_namespace = Some ''users'', evict_condition = None\<rparr>"

definition evict_after :: "nat TurboCacheEvictOptions" where
  "evict_after =
     \<lparr>evict_key = Some ''user:#{0}'', allEntries = None, beforeInvocation = None,
      evict_store = None, evict_namespace = None, evict_condition = None\<rparr>"

section \<open>Facts about the insertion-ordered map\<close>

lemma delete_head_distinct:
  "distinct (map fst ((k, e) # c)) \<Longrightarrow> AList.delete k ((k, e) # c) = c"
  by (auto simp: AList.delete_eq image_iff intro!: filter_True)

lemma evict_oldest_tl:
  "distinct (map fst c) \<Longrightarrow> c \<noteq> [] \<Longrightarrow> fst (hd c) \<noteq> [] \<Longrightarrow> evict_oldest c = tl c"
  by (cases c) (auto simp: evict_oldest_def delete_head_distinct simp del: AList.delete_simps split: prod.splits)

lemma length_update_new: "map_of c k = None \<Longrightarrow> length (AList.update k e c) = Suc (length c)"
  by (induction c) (auto split: if_splits)

lemma length_update_old: "map_of c k \<noteq> None \<Longrightarrow> length (AList.update k e c) = length c"
  by (induction c) (auto split: if_splits)

lemma update_new_append: "map_of c k = None \<Longrightarrow> AList.update k e c = c @ [(k, e)]"
  by (induction c) (auto split: if_splits)

lemma map_of_tl_None: "map_of c k = None \<Longrightarrow> map_of (tl c) k = None"
  by (cases c) (auto split: if_splits)

lemma delete_keys_props:
  "distinct (map fst c) \<Longrightarrow> distinct (map fst (delete_keys ks c))
     \<and> length (delete_keys ks c) \<le> length c \<and> fst ` set (delete_keys ks c) \<subseteq> fst ` set c"
proof (induction ks arbitrary: c)
  case Nil
  then show ?case by (simp add: delete_keys_def)
next
  case (Cons k ks)
  have d: "distinct (map fst (AList.delete k c))" using Cons.prems by (rule distinct_delete)
  have eq: "delete_keys (k # ks) c = delete_keys ks (AList.delete k c)"
    by (simp add: delete_keys_def)
  note ih = Cons.IH[OF d]
  have 1: "distinct (map fst (delete_keys ks (AList.delete k c)))" using ih by simp
  have 2: "length (delete_keys ks (AList.delete k c)) \<le> length c"
    using ih length_delete_le[of k c] by linarith
  have 3: "fst ` set (delete_keys ks (AList.delete k c)) \<subseteq> fst ` set c"
    using ih dom_delete_subset[of k c] by blast
  from 1 2 3 show ?case unfolding eq by simp
qed

lemma evict_oldest_props:
  assumes d: "distinct (map fst c)"
  shows "distinct (map fst (evict_oldest c)) \<and> fst ` set (evict_oldest c) \<subseteq> fst ` set c"
proof (cases c)
  case Nil
  then show ?thesis by (simp add: evict_oldest_def)
next
  case (Cons p c')
  obtain k e where p: "p = (k, e)" by (cases p)
  show ?thesis
  proof (cases "k = []")
    case True
    then show ?thesis using d by (simp add: evict_oldest_def Cons p)
  next
    case False
    then have "evict_oldest c = AList.delete k c" by (simp add: evict_oldest_def Cons p)
    then show ?thesis using distinct_delete[OF d, of k] dom_delete_subset[of k c] by simp
  qed
qed

lemma map_of_delete_keys:
  "map_of (delete_keys ks c) k = (if k \<in> set ks then None else map_of c k)"
proof (induction ks arbitrary: c)
  case Nil
  then show ?case by (simp add: delete_keys_def)
next
  case (Cons a ks)
  have "delete_keys (a # ks) c = delete_keys ks (AList.delete a c)" by (simp add: delete_keys_def)
  then show ?case using Cons.IH[of "AList.delete a c"] by (simp add: delete_conv')
qed

text \<open>What \<open>clear(pattern)\<close> leaves in a memory store: the entries whose key the glob rejects.\<close>

lemma clear_lookup:
  "map_of (cache (MemoryAdapter_clear (Some p) st)) k =
     (if p = [] \<or> glob_test p k then None else map_of (cache st) k)"
proof (cases "p = []")
  case True
  then show ?thesis by (simp add: MemoryAdapter_clear_def)
next
  case False
  have "k \<notin> fst ` set (cache st) \<Longrightarrow> map_of (cache st) k = None"
    by (simp add: map_of_eq_None_iff)
  then show ?thesis using False
    by (auto simp: MemoryAdapter_clear_def map_of_delete_keys)
qed

section \<open>A ttl of 0 never expires\<close>

lemma holds_forever_delete:
  assumes "holds_forever k v st" and "k' \<noteq> k"
  shows "holds_forever k v (st\<lparr>cache := AList.delete k' (cache st)\<rparr>)"
  using assms by (simp add: holds_forever_def distinct_delete)

lemma holds_forever_get:
  assumes h: "holds_forever k v st"
  shows "holds_forever k v (snd (MemoryAdapter_get now k' st))"
proof (cases "map_of (cache st) k'")
  case None
  then show ?thesis using h by (simp add: MemoryAdapter_get_def holds_forever_def)
next
  case (Some e)
  show ?thesis
  proof (cases "expired now e")
    case True
    with Some h have "k' \<noteq> k" by (auto simp: holds_forever_def expired_def)
    from holds_forever_delete[OF h this] Some True show ?thesis
      by (simp add: MemoryAdapter_get_def holds_forever_def)
  next
    case False
    with Some h show ?thesis by (simp add: MemoryAdapter_get_def holds_forever_def)
  qed
qed

lemma holds_forever_has:
  assumes h: "holds_forever k v st"
  shows "holds_forever k v (snd (MemoryAdapter_has now k' st))"
proof (cases "map_of (cache st) k'")
  case None
  then show ?thesis using h by (simp add: MemoryAdapter_has_def)
next
  case (Some e)
  show ?thesis
  proof (cases "expired now e")
    case True
    with Some h have "k' \<noteq> k" by (auto simp: holds_forever_def expired_def)
    from holds_forever_delete[OF h this] Some True show ?thesis
      by (simp add: MemoryAdapter_has_def)
  next
    case False
    with Some h show ?thesis by (simp add: MemoryAdapter_has_def)
  qed
qed

lemma holds_forever_mget_loop:
  "holds_forever k v st \<Longrightarrow> holds_forever k v (snd (mget_loop now ks rs st))"
proof (induction ks arbitrary: rs st)
  case Nil
  then show ?case by simp
next
  case (Cons k' ks)
  from holds_forever_get[OF Cons.prems, of now k'] Cons.IH
  show ?case by (auto split: prod.splits option.splits)
qed

lemma holds_forever_cleanup:
  assumes h: "holds_forever k v st"
  shows "holds_forever k v (cleanup now st)"
proof -
  from h have d: "distinct (map fst (cache st))"
    and m: "map_of (cache st) k = Some \<lparr>entry_value = v, expiresAt = 0\<rparr>"
    by (simp_all add: holds_forever_def)
  have "k \<notin> set (map fst (filter (\<lambda>(k, e). expired now e) (cache st)))"
  proof
    assume "k \<in> set (map fst (filter (\<lambda>(k, e). expired now e) (cache st)))"
    then obtain e where "(k, e) \<in> set (cache st)" and "expired now e" by auto
    with d have "map_of (cache st) k = Some e" by simp
    with m \<open>expired now e\<close> show False by (simp add: expired_def)
  qed
  then have "map_of (cache (cleanup now st)) k = Some \<lparr>entry_value = v, expiresAt = 0\<rparr>"
    using m by (simp add: cleanup_def map_of_delete_keys)
  moreover have "distinct (map fst (cache (cleanup now st)))"
    using delete_keys_props[OF d] by (simp add: cleanup_def)
  ultimately show ?thesis by (simp add: holds_forever_def)
qed

lemma snd_stats: "snd (MemoryAdapter_stats json now st) = cleanup now st"
  by (simp add: MemoryAdapter_stats_def Let_def)

lemma holds_forever_set_other:
  assumes h: "holds_forever k v st" and s: "set_spares k k' st"
  shows "holds_forever k v (MemoryAdapter_set now k' v' t st)"
proof -
  from h have d: "distinct (map fst (cache st))"
    and m: "map_of (cache st) k = Some \<lparr>entry_value = v, expiresAt = 0\<rparr>"
    by (simp_all add: holds_forever_def)
  from s have ne: "k' \<noteq> k" by (simp add: set_spares_def)
  define c where "c = (if max_items st \<noteq> 0 \<and> real (length (cache st)) \<ge> max_items st
                  \<and> map_of (cache st) k' = None
               then evict_oldest (cache st) else cache st)"
  have dc: "distinct (map fst c)"
    using d evict_oldest_props[OF d] by (simp add: c_def)
  have mc: "map_of c k = Some \<lparr>entry_value = v, expiresAt = 0\<rparr>"
  proof (cases "max_items st \<noteq> 0 \<and> real (length (cache st)) \<ge> max_items st
                  \<and> map_of (cache st) k' = None")
    case True
    with s have nk: "map fst (take 1 (cache st)) \<noteq> [k] \<or> k = []" by (simp add: set_spares_def)
    show ?thesis
    proof (cases "cache st")
      case Nil
      with m show ?thesis by simp
    next
      case (Cons p rest)
      obtain fk fe where p: "p = (fk, fe)" by (cases p)
      from nk Cons p have fk: "fk \<noteq> k \<or> fk = []" by auto
      have "evict_oldest (cache st) = (if fk \<noteq> [] then AList.delete fk (cache st) else cache st)"
        by (simp add: evict_oldest_def Cons p)
      with fk have "map_of (evict_oldest (cache st)) k = map_of (cache st) k"
        by (auto simp: delete_conv')
      moreover have "c = evict_oldest (cache st)" unfolding c_def using True by (rule if_P)
      ultimately show ?thesis using m by simp
    qed
  next
    case False
    have "c = cache st" unfolding c_def using False by (rule if_not_P)
    with m show ?thesis by simp
  qed
  have "cache (MemoryAdapter_set now k' v' t st)
      = AList.update k' \<lparr>entry_value = v', expiresAt = (case t of None \<Rightarrow> 0
            | Some x \<Rightarrow> if x \<noteq> 0 then now + x * 1000 else 0)\<rparr> c"
    by (simp add: MemoryAdapter_set_def Let_def c_def)
  with dc mc ne show ?thesis
    by (simp add: holds_forever_def update_conv' distinct_update)
qed

lemma holds_forever_mset:
  "holds_forever k v st \<Longrightarrow> mset_spares k now es t st
     \<Longrightarrow> holds_forever k v (MemoryAdapter_mset now es t st)"
proof (induction es arbitrary: st)
  case Nil
  then show ?case by (simp add: MemoryAdapter_mset_def)
next
  case (Cons e es)
  obtain k' v' where e: "e = (k', v')" by (cases e)
  from Cons.prems e have s1: "set_spares k k' st"
    and s2: "mset_spares k now es t (MemoryAdapter_set now k' v' t st)" by simp_all
  from holds_forever_set_other[OF Cons.prems(1) s1]
  have "holds_forever k v (MemoryAdapter_set now k' v' t st)" .
  from Cons.IH[OF this s2] show ?case by (simp add: MemoryAdapter_mset_def e)
qed

lemma holds_forever_delete_keys:
  assumes h: "holds_forever k v st" and "k \<notin> set ks"
  shows "holds_forever k v (st\<lparr>cache := delete_keys ks (cache st)\<rparr>)"
  using assms delete_keys_props[of "cache st" ks]
  by (simp add: holds_forever_def map_of_delete_keys)

lemma holds_forever_clear:
  assumes h: "holds_forever k v st" and "p \<noteq> []" and "\<not> glob_test p k"
  shows "holds_forever k v (MemoryAdapter_clear (Some p) st)"
proof -
  from h have d: "distinct (map fst (cache st))" by (simp add: holds_forever_def)
  have "distinct (map fst (cache (MemoryAdapter_clear (Some p) st)))"
    using delete_keys_props[OF d] assms(2) by (simp add: MemoryAdapter_clear_def)
  then show ?thesis using assms by (simp add: holds_forever_def clear_lookup)
qed

lemma holds_forever_apply_op:
  assumes h: "holds_forever k v st" and s: "spares k now x st"
  shows "holds_forever k v (apply_op json now x st)"
proof (cases x)
  case (OpDelete ka)
  then show ?thesis
    using h s holds_forever_delete[OF h] holds_forever_delete_keys[OF h]
    by (cases ka) (simp_all add: MemoryAdapter_delete_def)
next
  case (OpClear p)
  then show ?thesis using h s holds_forever_clear[OF h] by (cases p) simp_all
qed (use h s in \<open>simp_all add: holds_forever_get holds_forever_has holds_forever_mget_loop
       MemoryAdapter_mget_def holds_forever_cleanup snd_stats holds_forever_set_other
       holds_forever_mset\<close>)

lemma holds_forever_run_ops:
  "holds_forever k v st \<Longrightarrow> spared k json st ops \<Longrightarrow> holds_forever k v (run_ops json st ops)"
  by (induction ops arbitrary: st) (auto simp: holds_forever_apply_op)

lemma holds_forever_set:
  assumes "distinct (map fst (cache st))"
  shows "holds_forever k v (MemoryAdapter_set t0 k v (Some 0) st)"
  using assms evict_oldest_props[of "cache st"]
  by (simp add: holds_forever_def MemoryAdapter_set_def Let_def update_conv' distinct_update)

lemma holds_forever_get_value:
  "holds_forever k v st \<Longrightarrow> fst (MemoryAdapter_get t k st) = Some v"
  by (simp add: holds_forever_def MemoryAdapter_get_def expired_def)

text \<open>
  C10. An explicit ttl of 0 gives an entry that never expires. \<open>MemoryAdapter.set(k, v, 0)\<close>
  stores \<open>v\<close> with no expiry, so a \<open>get(k)\<close> at any instant \<open>t\<close> answers \<open>v\<close>, whatever the
  store held before; and on a store with distinct keys it still does after any sequence
  of operations, run at any instants, none of which deletes, overwrites or evicts \<open>k\<close>.
  \<open>CacheManager.set\<close> hands an explicit 0 to the adapter as it is, not its default TTL; and
  a manager on a memory store answers \<open>v\<close> at any later clock.
\<close>

theorem ttl_zero_never_expires:
  "fst (MemoryAdapter_get t k (MemoryAdapter_set t0 k v (Some 0) st)) = Some v
   \<and> (distinct (map fst (cache st)) \<and> spared k json (MemoryAdapter_set t0 k v (Some 0) st) ops \<longrightarrow>
        fst (MemoryAdapter_get t k (run_ops json (MemoryAdapter_set t0 k v (Some 0) st) ops)) = Some v)
   \<and> CacheManager_set cm k v (Some 0) = a_set (adapter cm) (buildKey cm k) v (Some 0)
   \<and> fst (CacheManager_get (CacheManager_new (hot_adapter js) config) k
            ((snd (CacheManager_set (CacheManager_new (hot_adapter js) config) k v (Some 0) w))
               \<lparr>clock := t\<rparr>)) = Inr (Some v)"
proof (intro conjI impI)
  show "fst (MemoryAdapter_get t k (MemoryAdapter_set t0 k v (Some 0) st)) = Some v"
    by (simp add: MemoryAdapter_get_def MemoryAdapter_set_def Let_def update_conv' expired_def)
  show "fst (MemoryAdapter_get t k (run_ops json (MemoryAdapter_set t0 k v (Some 0) st) ops)) = Some v"
    if "distinct (map fst (cache st)) \<and> spared k json (MemoryAdapter_set t0 k v (Some 0) st) ops"
  proof -
    from that have "holds_forever k v (MemoryAdapter_set t0 k v (Some 0) st)"
      by (simp add: holds_forever_set)
    with that have "holds_forever k v (run_ops json (MemoryAdapter_set t0 k v (Some 0) st) ops)"
      by (simp add: holds_forever_run_ops)
    then show ?thesis by (rule holds_forever_get_value)
  qed
  show "CacheManager_set cm k v (Some 0) = a_set (adapter cm) (buildKey cm k) v (Some 0)"
    by (simp add: CacheManager_set_def)
  show "fst (CacheManager_get (CacheManager_new (hot_adapter js) config) k
            ((snd (CacheManager_set (CacheManager_new (hot_adapter js) config) k v (Some 0) w))
               \<lparr>clock := t\<rparr>)) = Inr (Some v)"
    by (simp add: CacheManager_get_def CacheManager_set_def CacheManager_new_def hot_adapter_def
        MemoryAdapter_adapter_def MemoryAdapter_get_def MemoryAdapter_set_def Let_def
        update_conv' expired_def split: prod.splits)
qed

theorem ttl_zero_never_expires_witness:
  "fst (MemoryAdapter_get 86400000 ''k''
          (run_ops json_of_nat (MemoryAdapter_set 0 ''k'' 7 (Some 0) (MemoryAdapter_new None None 0))
             [(10, OpSet ''other'' 1 (Some 5)), (60000, OpCleanup),
              (60001, OpDelete (One ''other'')), (60002, OpMset [(''a'', 2), (''b'', 3)] None),
              (60003, OpClear (Some ''a*'')), (120000, OpStats)])) = Some 7"
proof -
  have "distinct (map fst (cache (MemoryAdapter_new None None 0 :: nat MemoryAdapter)))
      \<and> spared ''k'' json_of_nat (MemoryAdapter_set 0 ''k'' 7 (Some 0) (MemoryAdapter_new None None 0))
          [(10, OpSet ''other'' 1 (Some 5)), (60000, OpCleanup),
           (60001, OpDelete (One ''other'')), (60002, OpMset [(''a'', 2), (''b'', 3)] None),
           (60003, OpClear (Some ''a*'')), (120000, OpStats)]"
    by (simp add: MemoryAdapter_new_def MemoryAdapter_set_def MemoryAdapter_delete_def
        MemoryAdapter_mset_def MemoryAdapter_clear_def set_spares_def cleanup_def delete_keys_def
        expired_def Let_def)
  with ttl_zero_never_expires [of 86400000 "''k''" 0 7 "MemoryAdapter_new None None 0"
      json_of_nat "[(10, OpSet ''other'' 1 (Some 5)), (60000, OpCleanup),
              (60001, OpDelete (One ''other'')), (60002, OpMset [(''a'', 2), (''b'', 3)] None),
              (60003, OpClear (Some ''a*'')), (120000, OpStats)]"]
  show ?thesis by blast
qed

section \<open>Expiry\<close>




text \<open>Whatever the store holds, \<open>get\<close> and \<open>has\<close> answer only for an entry that passes the test.\<close>

lemma get_has_only_unexpired:
  "(fst (MemoryAdapter_get now k st) = Some v \<longrightarrow>
      (\<exists>e. map_of (cache st) k = Some e \<and> entry_value e = v \<and> \<not> expired now e))
   \<and> (fst (MemoryAdapter_has now k st) \<longrightarrow>
      (\<exists>e. map_of (cache st) k = Some e \<and> \<not> expired now e))"
  by (auto simp: MemoryAdapter_get_def MemoryAdapter_has_def split: option.splits if_splits)

section \<open>The hit and miss counters\<close>

lemma live_after_get: "live now (snd (MemoryAdapter_get now k' st)) k = live now st k"
  by (cases "k = k'")
     (auto simp: live_def MemoryAdapter_get_def delete_conv' split: option.splits)

lemma mget_loop_counters:
  "mget_loop now ks rs st = (rs', st') \<Longrightarrow>
     hits_ctr st' = hits_ctr st + int (length (filter (live now st) ks))
     \<and> misses_ctr st' = misses_ctr st + int (length (filter (\<lambda>k. \<not> live now st k) ks))"
proof (induction ks arbitrary: rs st)
  case Nil
  then show ?case by simp
next
  case (Cons k ks)
  obtain r st1 where g: "MemoryAdapter_get now k st = (r, st1)"
    by (cases "MemoryAdapter_get now k st")
  from g have c: "hits_ctr st1 = hits_ctr st + (if live now st k then 1 else 0)"
    "misses_ctr st1 = misses_ctr st + (if live now st k then 0 else 1)"
    by (auto simp: MemoryAdapter_get_def live_def split: option.splits if_splits)
  have l: "live now st1 = live now st"
    using live_after_get[of now k st] g by (auto simp: fun_eq_iff)
  obtain rs1 where "mget_loop now ks rs1 st1 = (rs', st')"
    using Cons.prems g by (cases r) auto
  from Cons.IH[OF this] c l show ?case by simp
qed

text \<open>
  C7, as amended. A \<open>get\<close> adds one to exactly one counter: to the hits when the key is
  present and passes the expiry test, to the misses otherwise. An \<open>mget\<close> does so once for
  each requested key: the hits grow by the number of requested keys that are present and
  unexpired, the misses by the number of the others. A \<open>has\<close> changes neither counter.
  \<open>stats()\<close> changes neither counter and, when it answers, reports the two counters.
\<close>

theorem get_and_mget_count_has_does_not:
  "(case MemoryAdapter_get now k st of (r, st') \<Rightarrow>
      (r \<noteq> None) = live now st k
      \<and> hits_ctr st' = hits_ctr st + (if live now st k then 1 else 0)
      \<and> misses_ctr st' = misses_ctr st + (if live now st k then 0 else 1))
   \<and> (case MemoryAdapter_mget now ks st of (rs, st') \<Rightarrow>
        hits_ctr st' = hits_ctr st + int (length (filter (live now st) ks))
        \<and> misses_ctr st' = misses_ctr st + int (length (filter (\<lambda>k. \<not> live now st k) ks)))
   \<and> (case MemoryAdapter_has now k st of (b, st') \<Rightarrow>
        b = live now st k \<and> hits_ctr st' = hits_ctr st \<and> misses_ctr st' = misses_ctr st)
   \<and> (case MemoryAdapter_stats json now st of (res, st') \<Rightarrow>
        hits_ctr st' = hits_ctr st \<and> misses_ctr st' = misses_ctr st
        \<and> (case res of Inl err \<Rightarrow> True
            | Inr r \<Rightarrow> hits r = hits_ctr st \<and> misses r = misses_ctr st))"
proof (intro conjI)
  show "case MemoryAdapter_get now k st of (r, st') \<Rightarrow>
      (r \<noteq> None) = live now st k
      \<and> hits_ctr st' = hits_ctr st + (if live now st k then 1 else 0)
      \<and> misses_ctr st' = misses_ctr st + (if live now st k then 0 else 1)"
    by (simp add: MemoryAdapter_get_def live_def split: option.splits)
  show "case MemoryAdapter_mget now ks st of (rs, st') \<Rightarrow>
        hits_ctr st' = hits_ctr st + int (length (filter (live now st) ks))
        \<and> misses_ctr st' = misses_ctr st + int (length (filter (\<lambda>k. \<not> live now st k) ks))"
    using mget_loop_counters[of now ks "[]" st]
    by (auto simp: MemoryAdapter_mget_def split: prod.splits)
  show "case MemoryAdapter_has now k st of (b, st') \<Rightarrow>
        b = live now st k \<and> hits_ctr st' = hits_ctr st \<and> misses_ctr st' = misses_ctr st"
    by (simp add: MemoryAdapter_has_def live_def split: option.splits)
  show "case MemoryAdapter_stats json now st of (res, st') \<Rightarrow>
        hits_ctr st' = hits_ctr st \<and> misses_ctr st' = misses_ctr st
        \<and> (case res of Inl err \<Rightarrow> True
            | Inr r \<Rightarrow> hits r = hits_ctr st \<and> misses r = misses_ctr st)"
    by (simp add: MemoryAdapter_stats_def Let_def cleanup_def split: sum.splits)
qed

text \<open>
  The claim as stated fails for \<open>has\<close>: on a fresh store holding the key, \<open>has\<close> answers
  true and \<open>stats()\<close> still reports no hit and no miss.
\<close>

theorem has_counts_nothing_counterexample:
  "fst (MemoryAdapter_has 5 ''k'' (MemoryAdapter_set 0 ''k'' (7::nat) None (MemoryAdapter_new None None 0)))
   \<and> fst (MemoryAdapter_stats json_of_nat 5
        (snd (MemoryAdapter_has 5 ''k''
           (MemoryAdapter_set 0 ''k'' (7::nat) None (MemoryAdapter_new None None 0)))))
       = Inr \<lparr>hits = 0, misses = 0, keys = 1, memory = 20, uptime = 5\<rparr>"
  by (simp add: MemoryAdapter_has_def MemoryAdapter_set_def MemoryAdapter_new_def
      MemoryAdapter_stats_def cleanup_def delete_keys_def estimateMemoryUsage_def json_of_nat_def
      string_of_nat.simps Let_def expired_def)

section \<open>The capacity bound\<close>

lemma set_at_capacity:
  assumes "distinct (map fst (cache st))" "max_items st \<noteq> 0"
    "real (length (cache st)) \<ge> max_items st"
    "map_of (cache st) k = None" "cache st \<noteq> []" "fst (hd (cache st)) \<noteq> []"
  shows "cache (MemoryAdapter_set now k v t st) =
          tl (cache st) @ [(k, \<lparr>entry_value = v, expiresAt = (case t of None \<Rightarrow> 0 | Some x \<Rightarrow> if x \<noteq> 0 then now + x * 1000 else 0)\<rparr>)]"
  using assms
  by (simp add: MemoryAdapter_set_def Let_def evict_oldest_tl update_new_append map_of_tl_None)

lemma whole_bound_step:
  assumes "real_of_int \<lfloor>m\<rfloor> = m" and "real n < m"
  shows "real (Suc n) \<le> m"
proof -
  have "real_of_int (int n) = real n" by simp
  with assms(2) have "real_of_int (int n) < m" by (simp only:)
  with assms(1) have "real_of_int (int n) < real_of_int \<lfloor>m\<rfloor>" by (simp only:)
  then have "int n < \<lfloor>m\<rfloor>" by (simp only: of_int_less_iff)
  then have "int (Suc n) \<le> \<lfloor>m\<rfloor>" by simp
  then have "real_of_int (int (Suc n)) \<le> real_of_int \<lfloor>m\<rfloor>" by (simp only: of_int_le_iff)
  then have "real_of_int (int (Suc n)) \<le> m" using assms(1) by (simp only:)
  moreover have "real_of_int (int (Suc n)) = real (Suc n)" by simp
  ultimately show ?thesis by (simp only:)
qed

lemma set_bounded:
  assumes "distinct (map fst (cache st))" "0 < max_items st"
    "real_of_int \<lfloor>max_items st\<rfloor> = max_items st"
    "real (length (cache st)) \<le> max_items st" "[] \<notin> fst ` set (cache st)"
  shows "real (length (cache (MemoryAdapter_set now k v t st))) \<le> max_items st"
proof (cases "map_of (cache st) k")
  case None
  show ?thesis
  proof (cases "real (length (cache st)) \<ge> max_items st")
    case True
    with assms(2) have ne: "cache st \<noteq> []" by auto
    then have "hd (cache st) \<in> set (cache st)" by simp
    with assms(5) have f: "fst (hd (cache st)) \<noteq> []" by (metis imageI)
    from assms(2) have nz: "max_items st \<noteq> 0" by simp
    from set_at_capacity[OF assms(1) nz True None ne f, of now v t] ne assms(4)
    show ?thesis by simp
  next
    case False
    then have "real (length (cache st)) < max_items st" by simp
    from whole_bound_step[OF assms(3) this] False None show ?thesis
      by (simp add: MemoryAdapter_set_def Let_def length_update_new)
  qed
next
  case (Some e)
  then show ?thesis using assms(4)
    by (simp add: MemoryAdapter_set_def Let_def length_update_old)
qed

lemma bounded_shrink:
  assumes "bounded st" "max_items st' = max_items st"
    "distinct (map fst (cache st'))" "length (cache st') \<le> length (cache st)"
    "fst ` set (cache st') \<subseteq> fst ` set (cache st)"
  shows "bounded st'"
  using assms unfolding bounded_def by auto

lemma bounded_delete1:
  assumes b: "bounded st"
  shows "bounded (st\<lparr>cache := AList.delete k (cache st)\<rparr>)"
proof (rule bounded_shrink[OF b])
  show "distinct (map fst (cache (st\<lparr>cache := AList.delete k (cache st)\<rparr>)))"
    using b by (simp add: bounded_def distinct_delete)
  show "length (cache (st\<lparr>cache := AList.delete k (cache st)\<rparr>)) \<le> length (cache st)"
    by (simp add: length_delete_le)
  show "fst ` set (cache (st\<lparr>cache := AList.delete k (cache st)\<rparr>)) \<subseteq> fst ` set (cache st)"
    by (simp add: dom_delete_subset)
qed simp

lemma bounded_delete_keys:
  assumes b: "bounded st"
  shows "bounded (st\<lparr>cache := delete_keys ks (cache st)\<rparr>)"
proof -
  from b have "distinct (map fst (cache st))" by (simp add: bounded_def)
  note p = delete_keys_props[OF this, of ks]
  show ?thesis
  proof (rule bounded_shrink[OF b])
    show "distinct (map fst (cache (st\<lparr>cache := delete_keys ks (cache st)\<rparr>)))" using p by simp
    show "length (cache (st\<lparr>cache := delete_keys ks (cache st)\<rparr>)) \<le> length (cache st)"
      using p by simp
    show "fst ` set (cache (st\<lparr>cache := delete_keys ks (cache st)\<rparr>)) \<subseteq> fst ` set (cache st)"
      using p by simp
  qed simp
qed

lemma bounded_counters:
  "bounded st \<Longrightarrow> bounded (st\<lparr>hits_ctr := h\<rparr>)" "bounded st \<Longrightarrow> bounded (st\<lparr>misses_ctr := m\<rparr>)"
  by (simp_all add: bounded_def)

lemma bounded_get: 
  assumes b: "bounded st"
  shows "bounded (snd (MemoryAdapter_get now k st))"
proof (cases "map_of (cache st) k")
  case None
  then show ?thesis using b by (simp add: MemoryAdapter_get_def bounded_def)
next
  case (Some e)
  from bounded_delete1[OF b, of k]
  have "bounded (st\<lparr>cache := AList.delete k (cache st), misses_ctr := misses_ctr st + 1\<rparr>)"
    by (simp add: bounded_def)
  moreover have "bounded (st\<lparr>hits_ctr := hits_ctr st + 1\<rparr>)" using b by (simp add: bounded_def)
  ultimately show ?thesis using Some by (simp add: MemoryAdapter_get_def)
qed

lemma bounded_has: 
  assumes b: "bounded st"
  shows "bounded (snd (MemoryAdapter_has now k st))"
proof (cases "map_of (cache st) k")
  case None
  then show ?thesis using b by (simp add: MemoryAdapter_has_def)
next
  case (Some e)
  then show ?thesis using b bounded_delete1[OF b, of k] by (simp add: MemoryAdapter_has_def)
qed

lemma max_items_set: "max_items (MemoryAdapter_set now k v t st) = max_items st"
  by (simp add: MemoryAdapter_set_def Let_def)

lemma bounded_set:
  assumes "bounded st" "k \<noteq> []"
  shows "bounded (MemoryAdapter_set now k v t st)"
proof -
  from assms(1) have a: "distinct (map fst (cache st))" "0 < max_items st"
    "real_of_int \<lfloor>max_items st\<rfloor> = max_items st"
    "real (length (cache st)) \<le> max_items st" "[] \<notin> fst ` set (cache st)"
    by (auto simp: bounded_def)
  have len: "real (length (cache (MemoryAdapter_set now k v t st))) \<le> max_items st"
    by (rule set_bounded[OF a])
  have dist: "distinct (map fst (cache (MemoryAdapter_set now k v t st)))"
    using a(1) evict_oldest_props[of "cache st"]
    by (simp add: MemoryAdapter_set_def Let_def distinct_update)
  have dom: "fst ` set (cache (MemoryAdapter_set now k v t st)) \<subseteq> insert k (fst ` set (cache st))"
    using evict_oldest_props[OF a(1)]
    by (auto simp: MemoryAdapter_set_def Let_def dom_update)
  with a(5) assms(2) have "[] \<notin> fst ` set (cache (MemoryAdapter_set now k v t st))" by auto
  with len dist a(2,3) show ?thesis by (simp add: bounded_def max_items_set)
qed

lemma bounded_mget_loop: "bounded st \<Longrightarrow> bounded (snd (mget_loop now ks rs st))"
proof (induction ks arbitrary: rs st)
  case Nil
  then show ?case by simp
next
  case (Cons k ks)
  from bounded_get[OF Cons.prems, of now k] Cons.IH
  show ?case by (auto split: prod.splits option.splits)
qed

lemma bounded_mset:
  "bounded st \<Longrightarrow> [] \<notin> fst ` set es \<Longrightarrow> bounded (MemoryAdapter_mset now es t st)"
proof (induction es arbitrary: st)
  case Nil
  then show ?case by (simp add: MemoryAdapter_mset_def)
next
  case (Cons e es)
  obtain k v where e: "e = (k, v)" by (cases e)
  with Cons.prems have "k \<noteq> []" by auto
  from bounded_set[OF Cons.prems(1) this, of now v t] Cons.prems(2)
  have "bounded (MemoryAdapter_mset now es t (MemoryAdapter_set now k v t st))"
    by (intro Cons.IH) auto
  then show ?case by (simp add: MemoryAdapter_mset_def e)
qed

lemma bounded_cleanup: "bounded st \<Longrightarrow> bounded (cleanup now st)"
  unfolding cleanup_def by (rule bounded_delete_keys)

lemma bounded_clear: "bounded st \<Longrightarrow> bounded (MemoryAdapter_clear p st)"
  using bounded_delete_keys[of st]
  by (auto simp: MemoryAdapter_clear_def split: option.splits) (auto simp: bounded_def)

lemma bounded_apply_op:
  "bounded st \<Longrightarrow> [] \<notin> set (written_keys x) \<Longrightarrow> bounded (apply_op json now x st)"
proof (cases x)
  case (OpDelete ka)
  assume "bounded st"
  then show ?thesis using bounded_delete1[of st] bounded_delete_keys[of st]
    by (auto simp: OpDelete MemoryAdapter_delete_def split: key_arg.splits)
qed (auto simp: bounded_get bounded_has bounded_set bounded_clear bounded_mset bounded_cleanup
       bounded_mget_loop MemoryAdapter_mget_def snd_stats Let_def)

lemma bounded_run_ops:
  "bounded st \<Longrightarrow> \<forall>(now, x) \<in> set ops. [] \<notin> set (written_keys x) \<Longrightarrow> bounded (run_ops json st ops)"
  by (induction ops arbitrary: st) (auto simp: bounded_apply_op)

lemma bounded_new:
  "(case mx of None \<Rightarrow> True | Some m \<Rightarrow> 0 \<le> m \<and> real_of_int \<lfloor>m\<rfloor> = m)
     \<Longrightarrow> bounded (MemoryAdapter_new mx msz t0)"
  by (auto simp: bounded_def MemoryAdapter_new_def split: option.splits)

lemma max_items_apply_op: "max_items (apply_op json now x st) = max_items st"
proof -
  have loop: "max_items (snd (mget_loop now ks rs st')) = max_items st'" for ks rs and st' :: "'a MemoryAdapter"
    by (induction ks arbitrary: rs st')
       (auto simp: MemoryAdapter_get_def split: prod.splits option.splits if_splits)
  have mset: "max_items (MemoryAdapter_mset now es t st') = max_items st'" for es t and st' :: "'a MemoryAdapter"
    by (induction es arbitrary: st') (auto simp: MemoryAdapter_mset_def max_items_set)
  show ?thesis
    by (cases x)
       (auto simp: MemoryAdapter_get_def MemoryAdapter_has_def max_items_set MemoryAdapter_delete_def
          MemoryAdapter_clear_def MemoryAdapter_mget_def loop mset snd_stats Let_def
          cleanup_def split: option.splits key_arg.splits)
qed

lemma max_items_run_ops: "max_items (run_ops json st ops) = max_items st"
  by (induction ops arbitrary: st) (auto simp: max_items_apply_op)

text \<open>
  As long as no operation writes the empty key, no sequence of operations takes a new
  store over its bound, and a \<open>set\<close> of a new key into a full store drops exactly the
  oldest entry and appends the new one (\<open>set_at_capacity\<close>).
\<close>

lemma capacity_bound_without_empty_key:
  fixes json :: "'v \<Rightarrow> js_error + string"
  assumes "case mx of None \<Rightarrow> True | Some m \<Rightarrow> 0 \<le> m \<and> real_of_int \<lfloor>m\<rfloor> = m"
    and "\<forall>(now, x) \<in> set ops. [] \<notin> set (written_keys x)"
  shows "real (length (cache (run_ops json (MemoryAdapter_new mx msz t0) ops)))
           \<le> max_items (MemoryAdapter_new mx msz t0 :: 'v MemoryAdapter)"
proof -
  have "bounded (MemoryAdapter_new mx msz t0 :: 'v MemoryAdapter)"
    using assms(1) by (rule bounded_new)
  then have "bounded (run_ops json (MemoryAdapter_new mx msz t0 :: 'v MemoryAdapter) ops)"
    using assms(2) by (rule bounded_run_ops)
  then have "real (length (cache (run_ops json (MemoryAdapter_new mx msz t0 :: 'v MemoryAdapter) ops)))
      \<le> max_items (run_ops json (MemoryAdapter_new mx msz t0 :: 'v MemoryAdapter) ops)"
    by (simp add: bounded_def)
  then show ?thesis by (simp add: max_items_run_ops)
qed

text \<open>
  The constructor keeps any truthy \<open>max\<close> as it is given. A bound that is not a whole
  number lets one entry more in than its integer part: with \<open>max\<close> 1.5 the second new key
  is stored next to the first, and only the third evicts.
\<close>

lemma fractional_bound_example:
  "length (cache (run_ops json (MemoryAdapter_new (Some (3 / 2)) None 0)
        [(1, OpSet ''a'' va None), (2, OpSet ''b'' vb None)])) = 2
   \<and> length (cache (run_ops json (MemoryAdapter_new (Some (3 / 2)) None 0)
        [(1, OpSet ''a'' va None), (2, OpSet ''b'' vb None), (3, OpSet ''c'' vc None)])) = 2"
  by (simp add: MemoryAdapter_set_def MemoryAdapter_new_def Let_def evict_oldest_def)

lemma capacity_eviction_example:
  assumes "distinct [a, b, c]" and "a \<noteq> []"
  shows "\<not> fst (MemoryAdapter_has t a (run_ops json (MemoryAdapter_new (Some 2) None t0)
             [(t1, OpSet a va None), (t2, OpSet b vb None), (t3, OpSet c vc None)]))
       \<and> fst (MemoryAdapter_has t b (run_ops json (MemoryAdapter_new (Some 2) None t0)
             [(t1, OpSet a va None), (t2, OpSet b vb None), (t3, OpSet c vc None)]))
       \<and> fst (MemoryAdapter_has t c (run_ops json (MemoryAdapter_new (Some 2) None t0)
             [(t1, OpSet a va None), (t2, OpSet b vb None), (t3, OpSet c vc None)]))"
  using assms
  by (auto simp: MemoryAdapter_has_def MemoryAdapter_set_def MemoryAdapter_new_def Let_def
      evict_oldest_def expired_def)

text \<open>
  C2. The store is to hold at most N entries, a \<open>set\<close> of a new key into a full store
  evicting the oldest entry first. The code tests the oldest key for truthiness before
  deleting it, and the empty string is not truthy: on a store with bound 1 that holds the
  key \<open>''\<close>, the \<open>set\<close> of the new key \<open>a\<close> evicts nothing and the store holds two entries,
  both still answered by \<open>has\<close>.
\<close>

theorem empty_key_defeats_capacity:
  "max_items (MemoryAdapter_new (Some 1) None 0 :: nat MemoryAdapter) = 1
   \<and> length (cache (run_ops json_of_nat (MemoryAdapter_new (Some 1) None 0)
        [(1, OpSet [] (0::nat) None), (2, OpSet ''a'' 1 None)])) = 2
   \<and> fst (MemoryAdapter_has 3 [] (run_ops json_of_nat (MemoryAdapter_new (Some 1) None 0)
        [(1, OpSet [] (0::nat) None), (2, OpSet ''a'' 1 None)]))
   \<and> fst (MemoryAdapter_has 3 ''a'' (run_ops json_of_nat (MemoryAdapter_new (Some 1) None 0)
        [(1, OpSet [] (0::nat) None), (2, OpSet ''a'' 1 None)]))"
  by (simp add: MemoryAdapter_has_def MemoryAdapter_set_def MemoryAdapter_new_def Let_def
      evict_oldest_def expired_def)

section \<open>wrap: the cache-aside primitive\<close>

text \<open>
  When the lookup misses, the factory returns \<open>v\<close>, the condition lets \<open>v\<close> be cached and
  the store then fails, the failure of the store is caught by the \<open>catch\<close> that handles
  the factory's failures: \<open>wrap\<close> ends with the fallback when one is configured, and with
  the store's failure otherwise. In neither case does it return \<open>v\<close>.
\<close>

lemma wrap_when_set_fails:
  assumes "CacheManager_get cm k s = (Inr None, s1)"
    and "factory s1 = (Inr v, s2)"
    and "case options of None \<Rightarrow> True
         | Some opts \<Rightarrow> (case opt_condition opts of None \<Rightarrow> True | Some cond \<Rightarrow> cond v)"
    and "CacheManager_set cm k v (case options of None \<Rightarrow> None | Some opts \<Rightarrow> opt_ttl opts) s2
           = (Inl e, s3)"
  shows "CacheManager_wrap cm k factory options s =
           (case (case options of None \<Rightarrow> None | Some opts \<Rightarrow> opt_fallback opts) of
              None \<Rightarrow> (Inl e, s3)
            | Some (FallbackValue x) \<Rightarrow> (Inr x, s3)
            | Some (FallbackFn f) \<Rightarrow> f None s3)"
  using assms
  by (simp add: CacheManager_wrap_def await_def try_catch_def resolve_def reject_def
      split: option.splits fallback.splits)

text \<open>
  C1. A failure of the cache layer after a successful compute is to leave the computed
  value as the result. On a manager over a \<open>KeyvAdapter\<close> whose store is empty and refuses
  writes, with a factory that returns 42: without options \<open>wrap\<close> is rejected with the
  adapter's \<open>CacheError\<close>, and with the fallback 0 it returns 0.
\<close>

theorem wrap_loses_value_when_set_fails:
  "fst (CacheManager_wrap remote_manager ''k'' (resolve 42) None (new_world None 0))
     = Inl (CacheError ''Failed to set key: k'' CONNECTION_ERROR)
   \<and> fst (CacheManager_wrap remote_manager ''k'' (resolve 42)
            (Some \<lparr>opt_ttl = None, opt_condition = None, opt_fallback = Some (FallbackValue 0)\<rparr>)
            (new_world None 0)) = Inr 0"
  by (simp add: CacheManager_wrap_def CacheManager_get_def CacheManager_set_def remote_manager_def
      CacheManager_new_def no_config_def remote_adapter_def KeyvAdapter_adapter_def
      KeyvAdapter_get_def KeyvAdapter_set_def wrap_error_def write_refusing_keyv_def buildKey_def
      await_def try_catch_def resolve_def reject_def new_world_def)

text \<open>
  C9, as amended. When the lookup misses and the factory fails, a fallback that is a
  function is called with no argument, in the world the factory left, and \<open>wrap\<close> ends as
  that call does.
\<close>

theorem fallback_called_without_argument:
  assumes "CacheManager_get cm k s = (Inr None, s1)"
    and "factory s1 = (Inl e, s2)"
    and "opt_fallback opts = Some (FallbackFn f)"
  shows "CacheManager_wrap cm k factory (Some opts) s = f None s2"
  using assms
  by (simp add: CacheManager_wrap_def await_def try_catch_def resolve_def reject_def)

theorem fallback_called_without_argument_witness:
  "CacheManager_wrap hot_manager ''k'' (reject (Error ''boom''))
     (Some \<lparr>opt_ttl = None, opt_condition = None, opt_fallback = Some (FallbackFn probe)\<rparr>)
     (new_world None 0)
   = probe None (snd (CacheManager_get hot_manager ''k'' (new_world None 0)))"
proof -
  have h1: "CacheManager_get hot_manager ''k'' (new_world None 0)
      = (Inr None, snd (CacheManager_get hot_manager ''k'' (new_world None 0)))"
    by (simp add: CacheManager_get_def hot_manager_def CacheManager_new_def no_config_def
        hot_adapter_def MemoryAdapter_adapter_def MemoryAdapter_get_def MemoryAdapter_new_def
        buildKey_def new_world_def)
  have h2: "reject (Error ''boom'') (snd (CacheManager_get hot_manager ''k'' (new_world None 0)))
      = (Inl (Error ''boom'') :: js_error + nat, snd (CacheManager_get hot_manager ''k'' (new_world None 0)))"
    by (simp add: reject_def)
  have h3: "opt_fallback \<lparr>opt_ttl = None, opt_condition = None,
        opt_fallback = Some (FallbackFn (probe :: js_error option \<Rightarrow> (nat, nat world) task))\<rparr>
      = Some (FallbackFn probe)"
    by simp
  show ?thesis
    by (rule fallback_called_without_argument
          [where factory = "reject (Error ''boom'')" and f = probe, OF h1 h2 h3])
qed

text \<open>
  The claim as stated fails: the fallback \<open>probe\<close> answers 1 when it is handed the failure
  and 0 when it is handed nothing, and \<open>wrap\<close> returns 0.
\<close>

theorem fallback_not_handed_failure_counterexample:
  "fst (CacheManager_wrap hot_manager ''k'' (reject (Error ''boom''))
          (Some \<lparr>opt_ttl = None, opt_condition = None, opt_fallback = Some (FallbackFn probe)\<rparr>)
          (new_world None 0)) = Inr 0
   \<and> fst (probe (Some (Error ''boom'')) (new_world None 0 :: nat world)) = Inr 1"
  by (simp add: CacheManager_wrap_def CacheManager_get_def hot_manager_def
      CacheManager_new_def no_config_def hot_adapter_def MemoryAdapter_adapter_def
      MemoryAdapter_get_def MemoryAdapter_new_def buildKey_def probe_def
      await_def try_catch_def resolve_def reject_def new_world_def)

section \<open>The two-tier adapter\<close>

text \<open>
  C6, as amended. When both tiers answer their statistics, \<open>stats()\<close> of the two-tier
  adapter answers their combination: the hits are the sum of the two tiers' hits, the
  misses the larger of the two tiers' misses, the key count is the cold tier's, and the
  memory is the sum of both tiers' memory when the cold tier's memory is positive, and the
  hot tier's memory alone otherwise.
\<close>

theorem tier_stats_combined:
  assumes "a_stats (l1 mt) s = (Inr st1, s1)" and "a_stats (l2 mt) s1 = (Inr st2, s2)"
  shows "MultiTierAdapter_stats mt s = (Inr (combine_stats st1 st2), s2)
     \<and> hits (combine_stats st1 st2) = hits st1 + hits st2
     \<and> misses (combine_stats st1 st2) = max (misses st1) (misses st2)
     \<and> keys (combine_stats st1 st2) = keys st2
     \<and> memory (combine_stats st1 st2)
         = (if memory st2 > 0 then memory st1 + memory st2 else memory st1)"
  using assms
  by (simp add: MultiTierAdapter_stats_def promise_all2_def await_def resolve_def combine_stats_def)

lemma stats_of_new_tiers:
  "a_stats (l1 memory_over_remote) (new_world None 0)
     = (Inr \<lparr>hits = 0, misses = 0, keys = 0, memory = 0, uptime = 0\<rparr>, new_world None 0)"
  "a_stats (l2 memory_over_remote) (new_world None 0)
     = (Inr \<lparr>hits = 0, misses = 0, keys = - 1, memory = - 1, uptime = 0\<rparr>, new_world None 0)"
  by (simp_all add: memory_over_remote_def MultiTierAdapter_new_def hot_adapter_def
      remote_adapter_def MemoryAdapter_adapter_def KeyvAdapter_adapter_def KeyvAdapter_stats_def
      MemoryAdapter_stats_def cleanup_def delete_keys_def estimateMemoryUsage_def
      MemoryAdapter_new_def new_world_def Let_def)

theorem tier_stats_combined_witness:
  "MultiTierAdapter_stats memory_over_remote (new_world None 0)
     = (Inr (combine_stats \<lparr>hits = 0, misses = 0, keys = 0, memory = 0, uptime = 0\<rparr>
               \<lparr>hits = 0, misses = 0, keys = - 1, memory = - 1, uptime = 0\<rparr>), new_world None 0)
   \<and> keys (combine_stats \<lparr>hits = 0, misses = 0, keys = 0, memory = 0, uptime = 0\<rparr>
               \<lparr>hits = 0, misses = 0, keys = - 1, memory = - 1, uptime = 0\<rparr>) = - 1"
  using tier_stats_combined [OF stats_of_new_tiers] by simp

text \<open>
  The claim as stated fails when the cold tier reports a negative memory, as a
  \<open>KeyvAdapter\<close> does (\<open>memory: -1\<close>): over a new memory store and such a remote store the
  two tiers report 0 and -1 byte, and the two-tier adapter reports 0, not their sum.
\<close>

theorem memory_not_summed_counterexample:
  "fst (a_stats (l1 memory_over_remote) (new_world None 0))
      = Inr \<lparr>hits = 0, misses = 0, keys = 0, memory = 0, uptime = 0\<rparr>
   \<and> fst (a_stats (l2 memory_over_remote) (new_world None 0))
      = Inr \<lparr>hits = 0, misses = 0, keys = - 1, memory = - 1, uptime = 0\<rparr>
   \<and> fst (MultiTierAdapter_stats memory_over_remote (new_world None 0))
      = Inr \<lparr>hits = 0, misses = 0, keys = - 1, memory = 0, uptime = 0\<rparr>"
  by (simp add: MultiTierAdapter_stats_def promise_all2_def await_def resolve_def combine_stats_def
      stats_of_new_tiers)




lemma populated_world_eq:
  "populated_world =
     (new_world None 0)\<lparr>
       hot := MemoryAdapter_set 0 ''user:1'' 7 (Some 300) (MemoryAdapter_new None None 0),
       cold := MemoryAdapter_set 0 ''user:1'' 7 (Some 3600) (MemoryAdapter_new None None 0)\<rparr>"
  by (simp add: populated_world_def MultiTierAdapter_set_def memory_tiers_def
      MultiTierAdapter_new_def hot_adapter_def cold_adapter_def MemoryAdapter_adapter_def
      promise_all2_def await_def resolve_def or_default_def new_world_def)


section \<open>Key patterns\<close>

lemma until_brace_append:
  "CHR ''}'' \<in> set r \<Longrightarrow>
     until_brace (r @ s) = (case until_brace r of None \<Rightarrow> None | Some (e, r') \<Rightarrow> Some (e, r' @ s))"
  by (induction r) (auto split: option.splits)

lemma until_brace_Some:
  "until_brace r = Some (e, r') \<Longrightarrow> r = e @ CHR ''}'' # r'"
  by (induction r arbitrary: e) (auto split: if_splits option.splits)

lemma until_brace_exact:
  "CHR ''}'' \<notin> set e \<Longrightarrow> until_brace (e @ CHR ''}'' # r) = Some (e, r)"
  by (induction e) auto

lemma tokens_closed_append: "tokens_closed (a @ b) \<Longrightarrow> tokens_closed b"
  by (induction a) auto

lemma token_at_selector:
  "expr \<noteq> [] \<Longrightarrow> CHR ''}'' \<notin> set expr \<Longrightarrow>
     token_at (''#{'' @ expr @ ''}'' @ post) = Some (expr, post)"
  by (simp add: token_at_def until_brace_exact)

lemma token_at_append_Some:
  assumes "token_at pre = Some (e, r)"
  shows "token_at (pre @ s) = Some (e, r @ s) \<and> (\<exists>a. pre = a @ r)"
proof -
  from assms obtain rest where pre: "pre = CHR ''#'' # CHR ''{'' # rest"
    and ub: "until_brace rest = Some (e, r)" and ne: "e \<noteq> []"
    by (auto simp: token_at_def split: list.splits if_splits option.splits)
  from until_brace_Some[OF ub] have rest: "rest = e @ CHR ''}'' # r" .
  then have "CHR ''}'' \<in> set rest" by simp
  from until_brace_append[OF this, of s] ub have "until_brace (rest @ s) = Some (e, r @ s)" by simp
  with pre ne have "token_at (pre @ s) = Some (e, r @ s)" by (simp add: token_at_def)
  moreover from pre rest have "pre = (CHR ''#'' # CHR ''{'' # e @ [CHR ''}'']) @ r" by simp
  ultimately show ?thesis by blast
qed

lemma token_at_append_None:
  assumes "token_at (c # cs) = None" and "tokens_closed (c # cs)" and "s = [] \<or> hd s \<noteq> CHR ''{''"
  shows "token_at (c # cs @ s) = None"
proof (cases "c = CHR ''#'' \<and> take 1 cs = ''{''")
  case False
  show ?thesis
  proof (cases cs)
    case Nil
    with assms(3) show ?thesis by (cases s) (auto simp: token_at_def)
  next
    case (Cons b rest)
    with False show ?thesis by (auto simp: token_at_def)
  qed
next
  case True
  then obtain rest where cs: "cs = CHR ''{'' # rest" by (cases cs) auto
  with True assms(2) have br: "CHR ''}'' \<in> set rest" by simp
  from assms(1) True cs have "until_brace rest = None \<or> (\<exists>r. until_brace rest = Some ([], r))"
    by (auto simp: token_at_def split: option.splits if_splits)
  with until_brace_append[OF br, of s]
  have "until_brace (rest @ s) = None \<or> (\<exists>r. until_brace (rest @ s) = Some ([], r))"
    by auto
  with True cs show ?thesis by (auto simp: token_at_def)
qed

lemma regex_scan_append:
  "tokens_closed pre \<Longrightarrow> s = [] \<or> hd s \<noteq> CHR ''{'' \<Longrightarrow>
     regex_scan (pre @ s) = regex_scan pre @ regex_scan s"
proof (induction pre rule: regex_scan.induct)
  case 1
  then show ?case by simp
next
  case (2 c cs)
  show ?case
  proof (cases "token_at (c # cs)")
    case None
    from "2.prems"(1) have tc: "tokens_closed cs" by simp
    from token_at_append_None[OF None "2.prems"] have n: "token_at (c # cs @ s) = None" .
    from "2.IH"(1)[OF None tc "2.prems"(2)] None n show ?thesis by simp
  next
    case (Some x)
    obtain e r where x: "x = (e, r)" by (cases x)
    from token_at_append_Some[OF Some[unfolded x], of s]
    obtain a where t: "token_at (c # cs @ s) = Some (e, r @ s)" and a: "c # cs = a @ r" by auto
    from "2.prems"(1) a have tc: "tokens_closed r" using tokens_closed_append[of a r] by simp
    from "2.IH"(2)[OF Some x[symmetric] tc "2.prems"(2)] Some x t show ?thesis by simp
  qed
qed

lemma regex_scan_token:
  assumes "tokens_closed pre" and "expr \<noteq> []" and "CHR ''}'' \<notin> set expr"
  shows "regex_scan (pre @ ''#{'' @ expr @ ''}'' @ post) = regex_scan pre @ Inr expr # regex_scan post"
proof -
  have "regex_scan (pre @ (''#{'' @ expr @ ''}'' @ post))
      = regex_scan pre @ regex_scan (''#{'' @ expr @ ''}'' @ post)"
    using assms(1) by (rule regex_scan_append) simp
  moreover have "regex_scan (''#{'' @ expr @ ''}'' @ post) = Inr expr # regex_scan post"
    using token_at_selector[OF assms(2,3), of post] by simp
  ultimately show ?thesis by simp
qed

lemma replace_parts_append:
  "replace_parts f (a @ b) =
     (case replace_parts f a of
        Inl e \<Rightarrow> Inl e
      | Inr x \<Rightarrow> (case replace_parts f b of Inl e \<Rightarrow> Inl e | Inr y \<Rightarrow> Inr (x @ y)))"
  by (induction a) (auto split: sum.splits)

text \<open>
  C4, as amended. Let a pattern read \<open>pre\<close>, then the token \<open>#{selector}\<close>, then \<open>post\<close>, where
  the selector is a bare name (it is not empty, holds neither \<open>}\<close> nor a dot and is not an
  integer index) and every \<open>#{\<close> of \<open>pre\<close> is closed inside \<open>pre\<close>. The scan of the pattern
  then finds the tokens of \<open>pre\<close>, this token, and the tokens of \<open>post\<close>, and for every
  argument list the key that \<open>generate\<close> answers is the key text of \<open>pre\<close>, then the first
  argument in string form, then the key text of \<open>post\<close>; it fails only where one of the
  three fails. The string form of the first argument is the empty string when there is
  no first argument or it is \<open>undefined\<close> or \<open>null\<close>, the string itself for a string, and
  \<open>String(value)\<close> for a number or a boolean: none of these fails.
\<close>

theorem bare_selector_reads_first_argument:
  assumes "tokens_closed pre"
    and "expr \<noteq> []" and "CHR ''}'' \<notin> set expr"
    and "CHR ''.'' \<notin> set expr" and "\<not> all_digits expr"
  shows "regex_scan (pre @ ''#{'' @ expr @ ''}'' @ post) = regex_scan pre @ Inr expr # regex_scan post
     \<and> generate rt (Some (pre @ ''#{'' @ expr @ ''}'' @ post)) args methodName
         = (case parseExpression rt pre args of
              Inl e \<Rightarrow> Inl e
            | Inr a \<Rightarrow>
                (case stringify rt (arg_at args 0) of
                   Inl e \<Rightarrow> Inl e
                 | Inr t \<Rightarrow>
                     (case parseExpression rt post args of
                        Inl e \<Rightarrow> Inl e
                      | Inr b \<Rightarrow> Inr (a @ to_text t @ b))))
     \<and> stringify rt (arg_at [] 0) = Inr (Some [])
     \<and> stringify rt (arg_at (JUndefined # others) 0) = Inr (Some [])
     \<and> stringify rt (arg_at (JNull # others) 0) = Inr (Some [])
     \<and> stringify rt (arg_at (JStr s # others) 0) = Inr (Some s)
     \<and> stringify rt (arg_at (JNum n # others) 0) = Inr (Some (String_number rt n))
     \<and> stringify rt (arg_at (JBool b # others) 0) = Inr (Some (if b then ''true'' else ''false''))"
proof (intro conjI)
  show scan: "regex_scan (pre @ ''#{'' @ expr @ ''}'' @ post)
      = regex_scan pre @ Inr expr # regex_scan post"
    using assms(1-3) by (rule regex_scan_token)
  have ev: "replacement rt args (Inr expr)
      = (case stringify rt (arg_at args 0) of Inl e \<Rightarrow> Inl e | Inr t \<Rightarrow> Inr (to_text t))"
    using assms(4,5) by (simp add: replacement_def evaluateExpression_def)
  have "generate rt (Some (pre @ ''#{'' @ expr @ ''}'' @ post)) args methodName
      = replace_parts (replacement rt args) (regex_scan pre @ Inr expr # regex_scan post)"
    unfolding scan[symmetric] by (simp add: generate_def parseExpression_def)
  also have "\<dots> = (case parseExpression rt pre args of
              Inl e \<Rightarrow> Inl e
            | Inr a \<Rightarrow>
                (case stringify rt (arg_at args 0) of
                   Inl e \<Rightarrow> Inl e
                 | Inr t \<Rightarrow>
                     (case parseExpression rt post args of
                        Inl e \<Rightarrow> Inl e
                      | Inr b \<Rightarrow> Inr (a @ to_text t @ b))))"
    by (simp add: replace_parts_append parseExpression_def ev split: sum.splits)
  finally show "generate rt (Some (pre @ ''#{'' @ expr @ ''}'' @ post)) args methodName
         = (case parseExpression rt pre args of
              Inl e \<Rightarrow> Inl e
            | Inr a \<Rightarrow>
                (case stringify rt (arg_at args 0) of
                   Inl e \<Rightarrow> Inl e
                 | Inr t \<Rightarrow>
                     (case parseExpression rt post args of
                        Inl e \<Rightarrow> Inl e
                      | Inr b \<Rightarrow> Inr (a @ to_text t @ b))))" .
qed (simp_all add: stringify_def arg_at_def)

theorem bare_selector_reads_first_argument_witness:
  "tokens_closed ''v1:#{0}:''
   \<and> \<not> all_digits ''username''
   \<and> generate plain_runtime (Some ''v1:#{0}:#{username}:profile'') [JStr ''alice'', JStr ''x'']
       ''getUser'' = Inr ''v1:alice:alice:profile''
   \<and> generate plain_runtime (Some ''v1:#{0}:#{username}:profile'') [] ''getUser''
       = Inr ''v1:::profile''"
proof -
  have h: "tokens_closed ''v1:#{0}:''" "''username'' \<noteq> []" "CHR ''}'' \<notin> set ''username''"
    "CHR ''.'' \<notin> set ''username''" "\<not> all_digits ''username''"
    by (simp_all add: all_digits_def is_digit_def)
  have p1: "parseExpression plain_runtime ''v1:#{0}:'' [JStr ''alice'', JStr ''x''] = Inr ''v1:alice:''"
    "parseExpression plain_runtime ''v1:#{0}:'' [] = Inr ''v1::''"
    "parseExpression plain_runtime '':profile'' args = Inr '':profile''" for args
    by (simp_all add: parseExpression_def token_at_def replacement_def evaluateExpression_def
        all_digits_def is_digit_def stringify_def arg_at_def parseInt_def to_text_def)
  have 1: "generate plain_runtime (Some ''v1:#{0}:#{username}:profile'') [JStr ''alice'', JStr ''x'']
       ''getUser'' = Inr ''v1:alice:alice:profile''"
    using bare_selector_reads_first_argument [OF h, of "'':profile''" plain_runtime
        "[JStr ''alice'', JStr ''x'']" "''getUser''"]
    by (simp add: p1 stringify_def arg_at_def to_text_def)
  have 2: "generate plain_runtime (Some ''v1:#{0}:#{username}:profile'') [] ''getUser''
       = Inr ''v1:::profile''"
    using bare_selector_reads_first_argument [OF h, of "'':profile''" plain_runtime "[]" "''getUser''"]
    by (simp add: p1 stringify_def arg_at_def to_text_def)
  from h(1,5) 1 2 show ?thesis by simp
qed

text \<open>
  The claim as stated fails: for the pattern \<open>user:#{username}\<close> and the argument list
  \<open>["bob"]\<close> the key is \<open>user:bob\<close>, the token replaced by the first argument and not by the
  empty string.
\<close>

theorem bare_selector_not_empty_counterexample:
  "generate plain_runtime (Some ''user:#{username}'') [JStr ''bob''] ''getUser'' = Inr ''user:bob''"
  by (simp add: generate_def parseExpression_def token_at_def replacement_def
      evaluateExpression_def all_digits_def is_digit_def stringify_def arg_at_def to_text_def)

section \<open>Eviction around a failing method\<close>

lemma evict_key_only:
  assumes "case evict_condition options of None \<Rightarrow> True | Some cond \<Rightarrow> cond result args"
    and "\<not> truthy (allEntries options)"
    and "evict_key options = Some pat" and "pat \<noteq> []"
    and "generate rt (Some pat) args pk = Inr ck"
  shows "evictCache rt cm result args options pk =
           await (CacheManager_delete cm (One ck)) (\<lambda>_. resolve ())"
  using assms by (simp add: evictCache_def split: option.splits)

lemma hot_delete_then_has:
  "fst (CacheManager_has (CacheManager_new (hot_adapter json) config) k
         (snd (CacheManager_delete (CacheManager_new (hot_adapter json) config) (One k) w)))
     = Inr False"
  by (simp add: CacheManager_has_def CacheManager_delete_def CacheManager_new_def hot_adapter_def
      MemoryAdapter_adapter_def MemoryAdapter_has_def MemoryAdapter_delete_def delete_conv'
      split: prod.splits)

text \<open>
  On a manager over a memory store, with a key pattern, without \<open>allEntries\<close> and with no
  condition or one that accepts the \<open>null\<close> result: when the method fails at once, the
  entry under the derived key is gone after a call with \<open>beforeInvocation\<close>.
\<close>

lemma evict_before_removes_entry:
  fixes w :: "'v world" and e :: js_error and options :: "'r TurboCacheEvictOptions"
  assumes "truthy (beforeInvocation options)"
    and "case evict_condition options of None \<Rightarrow> True | Some cond \<Rightarrow> cond None args"
    and "\<not> truthy (allEntries options)"
    and "evict_key options = Some pat" and "pat \<noteq> []"
    and "generate rt (Some pat) args pk = Inr ck"
    and "inst_cacheManager this = Some (CacheManager_new (hot_adapter json) config)"
  shows "fst (TurboCacheEvict rt options pk (\<lambda>a. reject e) this g args w) = Inl e
       \<and> fst (CacheManager_has (CacheManager_new (hot_adapter json) config) ck
               (snd (TurboCacheEvict rt options pk (\<lambda>a. reject e) this g args w))) = Inr False"
proof -
  let ?cm = "CacheManager_new (hot_adapter json) config"
  have gm: "getCacheManager this g = Inr ?cm" using assms(7) by (simp add: getCacheManager_def)
  have ev: "evictCache rt ?cm None args options pk w =
      (Inr (), snd (CacheManager_delete ?cm (One ck) w))"
    unfolding evict_key_only[OF assms(2-6)]
    by (simp add: await_def resolve_def CacheManager_delete_def CacheManager_new_def hot_adapter_def
        MemoryAdapter_adapter_def)
  show ?thesis
    using gm ev assms(1) hot_delete_then_has[of json config ck w]
    by (simp add: TurboCacheEvict_def await_def try_catch_def resolve_def reject_def)
qed

text \<open>
  C8, as amended. The decorated method is called on an object whose cache manager is
  found, and the wrapped method fails with \<open>e\<close>. With \<open>beforeInvocation\<close>, the eviction step
  has run when the method starts: the method runs in the world \<open>s1\<close> that the step left,
  and the call ends with \<open>e\<close> in the world the method leaves from there. The step is called
  with a \<open>null\<close> result, and what it evicts depends on the configuration:
  \<^item> when a condition is configured and rejects the \<open>null\<close> result, it does nothing;
  \<^item> otherwise, when \<open>allEntries\<close> is set, it is the manager's \<open>clear(namespace)\<close>, whatever
    key is configured;
  \<^item> otherwise, when a key pattern is configured and the key \<open>ck\<close> is derived from it, it is
    the manager's \<open>delete(ck)\<close>: on a manager over a memory store, after a call whose
    method fails at once, the call has failed with \<open>e\<close> and \<open>has(ck)\<close> answers false.

  Without \<open>beforeInvocation\<close> (the default), the call ends exactly as the method alone does
  from the initial world, with \<open>e\<close> and the world the method left: no eviction has run.
\<close>

theorem evict_timing_when_method_fails:
  fixes options :: "'r TurboCacheEvictOptions" and w :: "'v world" and e :: js_error
  assumes "getCacheManager this g = Inr cm"
  shows "(truthy (beforeInvocation options)
            \<and> evictCache rt cm None args options pk s = (Inr (), s1)
            \<and> originalMethod args s1 = (Inl e, s2)
          \<longrightarrow> TurboCacheEvict rt options pk originalMethod this g args s = (Inl e, s2))
       \<and> ((case evict_condition options of None \<Rightarrow> False | Some cond \<Rightarrow> \<not> cond None args)
          \<longrightarrow> evictCache rt cm None args options pk = resolve ())
       \<and> ((case evict_condition options of None \<Rightarrow> True | Some cond \<Rightarrow> cond None args)
            \<and> truthy (allEntries options)
          \<longrightarrow> evictCache rt cm None args options pk
                = await (CacheManager_clear cm (evict_namespace options)) (\<lambda>_. resolve ()))
       \<and> ((case evict_condition options of None \<Rightarrow> True | Some cond \<Rightarrow> cond None args)
            \<and> \<not> truthy (allEntries options) \<and> evict_key options = Some pat \<and> pat \<noteq> []
            \<and> generate rt (Some pat) args pk = Inr ck
          \<longrightarrow> evictCache rt cm None args options pk
                = await (CacheManager_delete cm (One ck)) (\<lambda>_. resolve ()))
       \<and> (truthy (beforeInvocation options)
            \<and> (case evict_condition options of None \<Rightarrow> True | Some cond \<Rightarrow> cond None args)
            \<and> \<not> truthy (allEntries options) \<and> evict_key options = Some pat \<and> pat \<noteq> []
            \<and> generate rt (Some pat) args pk = Inr ck
            \<and> inst_cacheManager mthis = Some (CacheManager_new (hot_adapter json) config)
          \<longrightarrow> fst (TurboCacheEvict rt options pk (\<lambda>a. reject e) mthis mg args w) = Inl e
              \<and> fst (CacheManager_has (CacheManager_new (hot_adapter json) config) ck
                      (snd (TurboCacheEvict rt options pk (\<lambda>a. reject e) mthis mg args w)))
                  = Inr False)
       \<and> (\<not> truthy (beforeInvocation options) \<and> originalMethod args s = (Inl e, s2)
          \<longrightarrow> TurboCacheEvict rt options pk originalMethod this g args s = (Inl e, s2))"
proof (intro conjI impI)
  assume "truthy (beforeInvocation options)
            \<and> evictCache rt cm None args options pk s = (Inr (), s1)
            \<and> originalMethod args s1 = (Inl e, s2)"
  then show "TurboCacheEvict rt options pk originalMethod this g args s = (Inl e, s2)"
    using assms
    by (simp add: TurboCacheEvict_def await_def try_catch_def resolve_def reject_def)
next
  assume "case evict_condition options of None \<Rightarrow> False | Some cond \<Rightarrow> \<not> cond None args"
  then show "evictCache rt cm None args options pk = resolve ()"
    by (simp add: evictCache_def)
next
  assume "(case evict_condition options of None \<Rightarrow> True | Some cond \<Rightarrow> cond None args)
            \<and> truthy (allEntries options)"
  then show "evictCache rt cm None args options pk
                = await (CacheManager_clear cm (evict_namespace options)) (\<lambda>_. resolve ())"
    by (simp add: evictCache_def split: option.splits)
next
  assume k: "(case evict_condition options of None \<Rightarrow> True | Some cond \<Rightarrow> cond None args)
            \<and> \<not> truthy (allEntries options) \<and> evict_key options = Some pat \<and> pat \<noteq> []
            \<and> generate rt (Some pat) args pk = Inr ck"
  show "evictCache rt cm None args options pk
                = await (CacheManager_delete cm (One ck)) (\<lambda>_. resolve ())"
    using k by (elim conjE) (rule evict_key_only)
next
  assume a: "truthy (beforeInvocation options)
            \<and> (case evict_condition options of None \<Rightarrow> True | Some cond \<Rightarrow> cond None args)
            \<and> \<not> truthy (allEntries options) \<and> evict_key options = Some pat \<and> pat \<noteq> []
            \<and> generate rt (Some pat) args pk = Inr ck
            \<and> inst_cacheManager mthis = Some (CacheManager_new (hot_adapter json) config)"
  have r: "fst (TurboCacheEvict rt options pk (\<lambda>a. reject e) mthis mg args w) = Inl e
       \<and> fst (CacheManager_has (CacheManager_new (hot_adapter json) config) ck
               (snd (TurboCacheEvict rt options pk (\<lambda>a. reject e) mthis mg args w))) = Inr False"
    using a by (elim conjE) (rule evict_before_removes_entry)
  from r show "fst (TurboCacheEvict rt options pk (\<lambda>a. reject e) mthis mg args w) = Inl e" ..
  from r show "fst (CacheManager_has (CacheManager_new (hot_adapter json) config) ck
               (snd (TurboCacheEvict rt options pk (\<lambda>a. reject e) mthis mg args w))) = Inr False" ..
next
  assume "\<not> truthy (beforeInvocation options) \<and> originalMethod args s = (Inl e, s2)"
  then show "TurboCacheEvict rt options pk originalMethod this g args s = (Inl e, s2)"
    using assms
    by (simp add: TurboCacheEvict_def await_def try_catch_def resolve_def reject_def)
qed

theorem evict_timing_when_method_fails_witness:
  "TurboCacheEvict plain_runtime evict_before ''deleteUser'' (\<lambda>a. reject (Error ''boom''))
      hot_receiver None [JStr ''1''] populated_world
     = (Inl (Error ''boom''),
        populated_world\<lparr>hot := MemoryAdapter_delete (One ''user:1'') (hot populated_world)\<rparr>)
   \<and> TurboCacheEvict plain_runtime evict_after ''deleteUser'' (\<lambda>a. reject (Error ''boom''))
      hot_receiver None [JStr ''1''] populated_world
     = (Inl (Error ''boom''), populated_world)
   \<and> fst (CacheManager_has hot_manager ''user:1'' populated_world) = Inr True
   \<and> fst (CacheManager_has hot_manager ''user:1''
        (snd (TurboCacheEvict plain_runtime evict_before ''deleteUser''
                (\<lambda>a. reject (Error ''boom'')) hot_receiver None [JStr ''1''] populated_world)))
       = Inr False
   \<and> fst (CacheManager_has hot_manager ''user:1''
        (snd (TurboCacheEvict plain_runtime evict_after ''deleteUser''
                (\<lambda>a. reject (Error ''boom'')) hot_receiver None [JStr ''1''] populated_world)))
       = Inr True"
proof -
  let ?w1 = "populated_world\<lparr>hot := MemoryAdapter_delete (One ''user:1'') (hot populated_world)\<rparr>"
  let ?m = "\<lambda>a :: jsval list. (reject (Error ''boom'') :: (nat, nat world) task)"
  have gm: "getCacheManager hot_receiver None = Inr hot_manager"
    by (simp add: getCacheManager_def hot_receiver_def)
  have key: "generate plain_runtime (Some ''user:#{0}'') [JStr ''1''] ''deleteUser'' = Inr ''user:1''"
    by (simp add: generate_def parseExpression_def token_at_def replacement_def
        evaluateExpression_def all_digits_def is_digit_def stringify_def arg_at_def parseInt_def
        to_text_def)
  have ev: "evictCache plain_runtime hot_manager None [JStr ''1''] evict_before ''deleteUser''
              populated_world = (Inr (), ?w1)"
    by (simp add: evictCache_def evict_before_def truthy_def key CacheManager_delete_def
        hot_manager_def CacheManager_new_def no_config_def buildKey_def hot_adapter_def
        MemoryAdapter_adapter_def await_def resolve_def)
  have b: "truthy (beforeInvocation evict_before)" by (simp add: truthy_def evict_before_def)
  have a: "\<not> truthy (beforeInvocation evict_after)" by (simp add: truthy_def evict_after_def)
  have c: "case evict_condition evict_before of None \<Rightarrow> True | Some cond \<Rightarrow> cond None [JStr ''1'']"
    "\<not> truthy (allEntries evict_before)" "evict_key evict_before = Some ''user:#{0}''"
    "inst_cacheManager hot_receiver = Some (CacheManager_new (hot_adapter json_of_nat) no_config)"
    by (simp_all add: evict_before_def truthy_def hot_receiver_def hot_manager_def)
  have m1: "?m [JStr ''1''] ?w1 = (Inl (Error ''boom''), ?w1)" by (simp add: reject_def)
  have m2: "?m [JStr ''1''] populated_world = (Inl (Error ''boom''), populated_world)"
    by (simp add: reject_def)
  have 1: "TurboCacheEvict plain_runtime evict_before ''deleteUser'' ?m
      hot_receiver None [JStr ''1''] populated_world = (Inl (Error ''boom''), ?w1)"
    using evict_timing_when_method_fails [OF gm, where options = evict_before
        and rt = plain_runtime and args = "[JStr ''1'']" and pk = "''deleteUser''"
        and s = populated_world and ?s1.0 = ?w1 and originalMethod = ?m and e = "Error ''boom''"
        and ?s2.0 = ?w1] b ev m1
    by blast
  have 2: "TurboCacheEvict plain_runtime evict_after ''deleteUser'' ?m
      hot_receiver None [JStr ''1''] populated_world = (Inl (Error ''boom''), populated_world)"
    using evict_timing_when_method_fails [OF gm, where options = evict_after
        and rt = plain_runtime and args = "[JStr ''1'']" and pk = "''deleteUser''"
        and s = populated_world and ?s1.0 = populated_world and originalMethod = ?m and e = "Error ''boom''"
        and ?s2.0 = populated_world] a m2
    by blast
  have 3: "fst (CacheManager_has hot_manager ''user:1''
        (snd (TurboCacheEvict plain_runtime evict_before ''deleteUser'' ?m hot_receiver None
                [JStr ''1''] populated_world))) = Inr False"
    using evict_timing_when_method_fails [OF gm, where options = evict_before
        and rt = plain_runtime and args = "[JStr ''1'']" and pk = "''deleteUser''"
        and pat = "''user:#{0}''" and ck = "''user:1''" and mthis = hot_receiver
        and json = json_of_nat and config = no_config and mg = None and w = populated_world
        and e = "Error ''boom''"] b c key
    unfolding hot_manager_def by simp
  have 4: "fst (CacheManager_has hot_manager ''user:1'' populated_world) = Inr True"
    by (simp add: populated_world_eq CacheManager_has_def hot_manager_def CacheManager_new_def
        no_config_def buildKey_def hot_adapter_def MemoryAdapter_adapter_def new_world_def
        MemoryAdapter_has_def MemoryAdapter_set_def MemoryAdapter_new_def expired_def Let_def)
  from 1 2 3 4 show ?thesis by simp
qed

text \<open>
  The claim as stated fails for a configuration whose condition rejects the \<open>null\<close> result:
  with \<open>beforeInvocation\<close> and the condition \<open>result !== null\<close>, the method fails and the
  entry \<open>user:1\<close> is still in the store.
\<close>

theorem condition_blocks_eviction_before_counterexample:
  "fst (TurboCacheEvict plain_runtime evict_before_if_result ''deleteUser''
          (\<lambda>a. reject (Error ''boom'')) hot_receiver None [JStr ''1''] populated_world)
     = Inl (Error ''boom'')
   \<and> fst (MemoryAdapter_has 0 ''user:1''
        (hot (snd (TurboCacheEvict plain_runtime evict_before_if_result ''deleteUser''
                     (\<lambda>a. reject (Error ''boom'')) hot_receiver None [JStr ''1'']
                     populated_world))))"
proof -
  have "TurboCacheEvict plain_runtime evict_before_if_result ''deleteUser''
          (\<lambda>a. reject (Error ''boom'')) hot_receiver None [JStr ''1''] populated_world
      = (Inl (Error ''boom''), populated_world)"
    by (simp add: TurboCacheEvict_def getCacheManager_def hot_receiver_def evictCache_def
        evict_before_if_result_def truthy_def await_def try_catch_def resolve_def reject_def)
  moreover have "fst (MemoryAdapter_has 0 ''user:1'' (hot populated_world))"
    by (simp add: populated_world_eq MemoryAdapter_has_def MemoryAdapter_set_def
        MemoryAdapter_new_def expired_def Let_def)
  ultimately show ?thesis by simp
qed

text \<open>
  With \<open>allEntries\<close> and the namespace \<open>users\<close>, the step of a call with \<open>beforeInvocation\<close> is
  \<open>clear('users')\<close>, which the memory store reads as a pattern that only the key \<open>users\<close>
  matches: the entry \<open>user:1\<close> stays, whatever key pattern is configured.
\<close>

lemma all_entries_keeps_other_keys:
  "fst (TurboCacheEvict plain_runtime evict_before_all_users ''deleteUser''
          (\<lambda>a. reject (Error ''boom'')) hot_receiver None [JStr ''1''] populated_world)
     = Inl (Error ''boom'')
   \<and> fst (CacheManager_has hot_manager ''user:1''
        (snd (TurboCacheEvict plain_runtime evict_before_all_users ''deleteUser''
                (\<lambda>a. reject (Error ''boom'')) hot_receiver None [JStr ''1''] populated_world)))
       = Inr True"
  by (simp add: TurboCacheEvict_def getCacheManager_def hot_receiver_def evictCache_def
      evict_before_all_users_def truthy_def await_def try_catch_def resolve_def reject_def
      CacheManager_clear_def fullPattern_def hot_manager_def CacheManager_new_def no_config_def
      buildKey_def hot_adapter_def MemoryAdapter_adapter_def MemoryAdapter_clear_def
      populated_world_eq new_world_def MemoryAdapter_set_def MemoryAdapter_new_def delete_keys_def
      CacheManager_has_def MemoryAdapter_has_def expired_def Let_def)

end
